theory Spec2Isabelle
  imports Main
begin

section \<open>JSON values and the Python operations the portal applies to them\<close>

text \<open>
  The portal (\<^verbatim>\<open>src/app.py\<close>) keeps every collection as a JSON document: a list of
  objects. A Python \<^verbatim>\<open>dict\<close> keeps insertion order, so an object is an association list
  with \<open>map_of\<close> as lookup. Floating-point numbers are outside the model.
\<close>

datatype jval =
    JNull
  | JBool bool
  | JInt int
  | JStr string
  | JList "jval list"
  | JDict "(string \<times> jval) list"

type_synonym row = "(string \<times> jval) list"

datatype py_error =
    JSONDecodeError | RemoteError | NameError | TypeError | AttributeError | KeyError
  | IndexError

text \<open>\<^verbatim>\<open>d[k] = v\<close>: an existing key keeps its position, a new key goes to the end.\<close>

fun dict_set :: "'k \<Rightarrow> 'v \<Rightarrow> ('k \<times> 'v) list \<Rightarrow> ('k \<times> 'v) list" where
  "dict_set k v [] = [(k, v)]"
| "dict_set k v (p # ps) = (if fst p = k then (k, v) # ps else p # dict_set k v ps)"

text \<open>\<^verbatim>\<open>d.get(k, default)\<close> and \<^verbatim>\<open>d.get(k)\<close> (default \<^verbatim>\<open>None\<close>).\<close>

definition dict_get :: "row \<Rightarrow> string \<Rightarrow> jval \<Rightarrow> jval" where
  "dict_get r k d = (case map_of r k of None \<Rightarrow> d | Some v \<Rightarrow> v)"

text \<open>\<^verbatim>\<open>d.setdefault(k, v)\<close>, used for its effect on \<open>d\<close>.\<close>

definition setdefault :: "string \<Rightarrow> jval \<Rightarrow> row \<Rightarrow> row" where
  "setdefault k v r = (if map_of r k = None then dict_set k v r else r)"

text \<open>Truth value of a JSON value, as \<^verbatim>\<open>if x\<close>, \<^verbatim>\<open>x or y\<close> and \<^verbatim>\<open>not x\<close> see it.\<close>

fun truthy :: "jval \<Rightarrow> bool" where
  "truthy JNull = False"
| "truthy (JBool b) = b"
| "truthy (JInt n) = (n \<noteq> 0)"
| "truthy (JStr s) = (s \<noteq> [])"
| "truthy (JList xs) = (xs \<noteq> [])"
| "truthy (JDict kvs) = (kvs \<noteq> [])"

definition py_or :: "jval \<Rightarrow> jval \<Rightarrow> jval" where
  "py_or a b = (if truthy a then a else b)"

subsection \<open>Strings\<close>

text \<open>
  \<open>string\<close> is a list of bytes. The model covers ASCII text: whitespace and letter case
  are those of ASCII, so \<open>strip\<close>, \<open>upper\<close> and \<open>lower\<close> are \<^verbatim>\<open>str.strip\<close>, \<^verbatim>\<open>str.upper\<close> and
  \<^verbatim>\<open>str.lower\<close> on ASCII text; on other text Python also strips the Unicode spaces and
  maps the letters beyond ASCII, which the model leaves as they are.
\<close>

definition is_space :: "char \<Rightarrow> bool" where
  "is_space c = (let n = (of_char c :: nat) in (9 \<le> n \<and> n \<le> 13) \<or> (28 \<le> n \<and> n \<le> 32))"

definition strip :: "string \<Rightarrow> string" where
  "strip s = rev (dropWhile is_space (rev (dropWhile is_space s)))"

definition upper_char :: "char \<Rightarrow> char" where
  "upper_char c = (let n = (of_char c :: nat) in if 97 \<le> n \<and> n \<le> 122 then char_of (n - 32) else c)"


definition upper :: "string \<Rightarrow> string" where
  "upper s = map upper_char s"


fun join :: "string \<Rightarrow> string list \<Rightarrow> string" where
  "join sep [] = []"
| "join sep [x] = x"
| "join sep (x # y # ys) = x @ sep @ join sep (y # ys)"

fun dec :: "nat \<Rightarrow> string" where
  "dec n = (if n < 10 then [char_of (48 + n)] else dec (n div 10) @ [char_of (48 + n mod 10)])"

declare dec.simps [simp del]

definition int_str :: "int \<Rightarrow> string" where
  "int_str i = (if i < 0 then CHR ''-'' # dec (nat (- i)) else dec (nat i))"

definition quote :: "string \<Rightarrow> string" where
  "quote s = CHR 0x27 # s @ [CHR 0x27]"

text \<open>
  \<^verbatim>\<open>repr(x)\<close> and \<^verbatim>\<open>str(x)\<close>. The escapes that \<^verbatim>\<open>repr\<close> puts into a quoted string are
  not modelled; no property below depends on the text of a container's \<^verbatim>\<open>str\<close>.
\<close>

fun py_repr :: "jval \<Rightarrow> string" where
  "py_repr JNull = ''None''"
| "py_repr (JBool b) = (if b then ''True'' else ''False'')"
| "py_repr (JInt n) = int_str n"
| "py_repr (JStr s) = quote s"
| "py_repr (JList xs) = ''['' @ join '', '' (map py_repr xs) @ '']''"
| "py_repr (JDict kvs) =
     ''{'' @ join '', '' (map (\<lambda>kv. quote (fst kv) @ '': '' @ py_repr (snd kv)) kvs) @ ''}''"

definition py_str :: "jval \<Rightarrow> string" where
  "py_str v = (case v of JStr s \<Rightarrow> s | _ \<Rightarrow> py_repr v)"

subsection \<open>\<^verbatim>\<open>int(x)\<close>\<close>

definition digit_of :: "char \<Rightarrow> nat option" where
  "digit_of c = (let n = (of_char c :: nat) in if 48 \<le> n \<and> n \<le> 57 then Some (n - 48) else None)"

text \<open>
  Decimal digits with single underscores between digits; \<open>prev\<close> says that the previous
  character was a digit.
\<close>

fun py_digits :: "bool \<Rightarrow> nat \<Rightarrow> string \<Rightarrow> nat option" where
  "py_digits prev acc [] = (if prev then Some acc else None)"
| "py_digits prev acc (c # cs) =
     (if c = CHR ''_'' then (if prev \<and> cs \<noteq> [] then py_digits False acc cs else None)
      else (case digit_of c of
              None \<Rightarrow> None
            | Some d \<Rightarrow> py_digits True (10 * acc + d) cs))"

text \<open>
  \<^verbatim>\<open>int(text)\<close> drops the whitespace around the number, which in ASCII is tab, line feed,
  vertical tab, form feed, carriage return and space: the separators 0x1C to 0x1F, which
  \<^verbatim>\<open>str.strip\<close> removes, are not whitespace for \<^verbatim>\<open>int\<close>. A text with more digits than
  CPython's default limit of 4300 is rejected. The digits are those of ASCII.
\<close>

definition int_space :: "char \<Rightarrow> bool" where
  "int_space c = (let n = (of_char c :: nat) in (9 \<le> n \<and> n \<le> 13) \<or> n = 32)"

definition int_max_str_digits :: nat where
  "int_max_str_digits = 4300"

definition parse_int :: "string \<Rightarrow> int option" where
  "parse_int s =
     (case rev (dropWhile int_space (rev (dropWhile int_space s))) of
        [] \<Rightarrow> None
      | c # cs \<Rightarrow>
          if length (filter (\<lambda>d. digit_of d \<noteq> None) (c # cs)) > int_max_str_digits then None
          else if c = CHR ''-'' then map_option (\<lambda>n. - int n) (py_digits False 0 cs)
          else if c = CHR ''+'' then map_option int (py_digits False 0 cs)
          else map_option int (py_digits False 0 (c # cs)))"

text \<open>\<open>None\<close> stands for the \<^verbatim>\<open>TypeError\<close> or \<^verbatim>\<open>ValueError\<close> that \<^verbatim>\<open>int\<close> raises.\<close>

fun py_int :: "jval \<Rightarrow> int option" where
  "py_int JNull = None"
| "py_int (JBool b) = Some (if b then 1 else 0)"
| "py_int (JInt n) = Some n"
| "py_int (JStr s) = parse_int s"
| "py_int (JList xs) = None"
| "py_int (JDict kvs) = None"

section \<open>The world the portal runs in\<close>

text \<open>
  A local file is absent, holds text that \<^verbatim>\<open>json.load\<close> rejects, or holds a JSON value.
  Files that exist can be read and written.
\<close>

datatype fcontent = Unparsable | Json jval

datatype rop = Select | Upsert | Delete

datatype source = Local | Supabase

text \<open>What \<^verbatim>\<open>notify\<close>, \<^verbatim>\<open>st.warning\<close> and \<^verbatim>\<open>show_summary\<close> report during a sync or a pull.\<close>

datatype event =
    FileNotFound string
  | CheckFailed string
  | Skipped string
  | InvalidFormat string
  | Cleared string
  | ClearFailed string
  | Synced string nat
  | DeletedLocal string
  | DeleteLocalFailed string
  | Mirrored nat
  | MirrorSkipped
  | SyncError string
  | SyncSummary nat nat nat
  | Pulled string nat
  | PullError string
  | PullSummary nat nat
  | NotConfigured

text \<open>
  The remote store is a service outside the repository. It is a list of rows per table;
  \<open>rfails\<close> says which requests raise (an unreachable remote fails them all), and
  \<open>configured\<close> says that the module-level client \<^verbatim>\<open>supabase\<close> is not \<^verbatim>\<open>None\<close>.
  \<^verbatim>\<open>uuid.uuid4()\<close> reads the next value of \<open>uuid_src\<close>. \<open>writes\<close> lists the paths that
  \<^verbatim>\<open>save_json\<close> has written, in order: a save that rewrites a file with the content it
  already holds is still a save.
\<close>

record world =
  files :: "string \<Rightarrow> fcontent option"
  configured :: bool
  remote :: "string \<Rightarrow> row list"
  rfails :: "rop \<Rightarrow> string \<Rightarrow> bool"
  undeletable :: "string \<Rightarrow> bool"
  uuid_src :: "nat \<Rightarrow> string"
  uuid_ctr :: nat
  events :: "event list"
  writes :: "string list"

definition users_file :: string where "users_file = ''users.json''"
definition schools_file :: string where "schools_file = ''schools.json''"
definition materials_file :: string where "materials_file = ''materials.json''"
definition requests_file :: string where "requests_file = ''requests.json''"
definition stock_file :: string where "stock_file = ''stock_kimonos.json''"

definition load_json :: "world \<Rightarrow> string \<Rightarrow> jval" where
  "load_json w path =
     (case files w path of
        None \<Rightarrow> JList []
      | Some Unparsable \<Rightarrow> JList []
      | Some (Json v) \<Rightarrow> v)"

definition save_json :: "string \<Rightarrow> jval \<Rightarrow> world \<Rightarrow> world" where
  "save_json path data w =
     w\<lparr>files := (files w)(path \<mapsto> Json data), writes := writes w @ [path]\<rparr>"

definition uuid4 :: "world \<Rightarrow> string \<times> world" where
  "uuid4 w = (uuid_src w (uuid_ctr w), w\<lparr>uuid_ctr := Suc (uuid_ctr w)\<rparr>)"

definition notify :: "event \<Rightarrow> world \<Rightarrow> world" where
  "notify e w = w\<lparr>events := events w @ [e]\<rparr>"

subsection \<open>Remote requests\<close>

text \<open>
  Modelled from the spec: the remote adapter of section 4.3. \<^verbatim>\<open>select\<close> returns the stored
  rows, \<^verbatim>\<open>upsert\<close> with a conflict key replaces the stored row that has the same key value
  and appends otherwise, \<^verbatim>\<open>delete().neq(key, "")\<close> removes the rows whose key is set and
  not empty.
\<close>

definition conflicts :: "string option \<Rightarrow> row \<Rightarrow> row \<Rightarrow> bool" where
  "conflicts key r x =
     (case key of
        None \<Rightarrow> False
      | Some k \<Rightarrow> map_of r k \<noteq> None \<and> map_of r k \<noteq> Some JNull \<and> map_of x k = map_of r k)"

fun upsert_row :: "string option \<Rightarrow> row \<Rightarrow> row list \<Rightarrow> row list" where
  "upsert_row key r [] = [r]"
| "upsert_row key r (x # xs) = (if conflicts key r x then r # xs else x # upsert_row key r xs)"

definition upsert_rows :: "string option \<Rightarrow> row list \<Rightarrow> row list \<Rightarrow> row list" where
  "upsert_rows key rows stored = foldl (\<lambda>st r. upsert_row key r st) stored rows"

definition remote_upsert :: "string \<Rightarrow> row list \<Rightarrow> string option \<Rightarrow> world \<Rightarrow> py_error + world" where
  "remote_upsert t rows key w =
     (if rfails w Upsert t then Inl RemoteError
      else Inr (w\<lparr>remote := (remote w)(t := upsert_rows key rows (remote w t))\<rparr>))"

definition remote_select :: "world \<Rightarrow> string \<Rightarrow> nat \<Rightarrow> py_error + row list" where
  "remote_select w t n = (if rfails w Select t then Inl RemoteError else Inr (take n (remote w t)))"

definition key_set :: "string \<Rightarrow> row \<Rightarrow> bool" where
  "key_set k r = (map_of r k \<noteq> None \<and> map_of r k \<noteq> Some JNull \<and> map_of r k \<noteq> Some (JStr []))"

definition remote_delete_neq :: "string \<Rightarrow> string \<Rightarrow> world \<Rightarrow> py_error + world" where
  "remote_delete_neq t k w =
     (if rfails w Delete t then Inl RemoteError
      else Inr (w\<lparr>remote := (remote w)(t := filter (\<lambda>r. \<not> key_set k r) (remote w t))\<rparr>))"

section \<open>Identity and defaults normalizer\<close>

text \<open>
  \<^verbatim>\<open>ensure_request_id_and_defaults(rows)\<close> and \<^verbatim>\<open>ensure_stock_id_and_defaults(rows)\<close>.
  The rows are JSON objects. Each function returns the rows, the \<^verbatim>\<open>changed\<close> flag folded
  into the save it guards, and the world after it.
\<close>

definition ensure_id :: "world \<Rightarrow> row \<Rightarrow> row \<times> bool \<times> world" where
  "ensure_id w r =
     (if map_of r ''id'' = None
      then (let (u, w') = uuid4 w in (dict_set ''id'' (JStr u) r, True, w'))
      else (r, False, w))"

definition ensure_request_row :: "world \<Rightarrow> row \<Rightarrow> row \<times> bool \<times> world" where
  "ensure_request_row w r =
     (let (r1, c1, w1) = ensure_id w r;
          (r2, c2) = (if map_of r1 ''status'' = None
                      then (dict_set ''status'' (JStr ''Pending'') r1, True) else (r1, c1));
          (r3, c3) = (if map_of r2 ''ps_number'' = None
                      then (dict_set ''ps_number'' (JStr ''unknown'') r2, True) else (r2, c2))
      in (r3, c3, w1))"

definition ensure_stock_row :: "world \<Rightarrow> row \<Rightarrow> row \<times> bool \<times> world" where
  "ensure_stock_row w r =
     (let (r1, c1, w1) = ensure_id w r;
          (r2, c2) = (case map_of r1 ''quantity'' of
                        None \<Rightarrow> (dict_set ''quantity'' (JInt 0) r1, True)
                      | Some q \<Rightarrow> (case py_int q of
                                     Some n \<Rightarrow> (dict_set ''quantity'' (JInt n) r1, c1)
                                   | None \<Rightarrow> (dict_set ''quantity'' (JInt 0) r1, True)));
          r3 = (case map_of r2 ''project'' of
                  Some (JStr p) \<Rightarrow> dict_set ''project'' (JStr (upper (strip p))) r2
                | _ \<Rightarrow> r2)
      in (r3, c2, w1))"

text \<open>The \<^verbatim>\<open>for r in rows\<close> loop: the flag is the disjunction of the rows' flags.\<close>

fun ensure_rows :: "(world \<Rightarrow> row \<Rightarrow> row \<times> bool \<times> world) \<Rightarrow> world \<Rightarrow> row list
    \<Rightarrow> row list \<times> bool \<times> world" where
  "ensure_rows f w [] = ([], False, w)"
| "ensure_rows f w (r # rs) =
     (let (r', c, w1) = f w r;
          (rs', c', w2) = ensure_rows f w1 rs
      in (r' # rs', c \<or> c', w2))"

definition ensure_request_id_and_defaults :: "world \<Rightarrow> row list \<Rightarrow> row list \<times> world" where
  "ensure_request_id_and_defaults w rows =
     (let (rows', changed, w') = ensure_rows ensure_request_row w rows
      in (rows', if changed then save_json requests_file (JList (map JDict rows')) w' else w'))"

definition ensure_stock_id_and_defaults :: "world \<Rightarrow> row list \<Rightarrow> row list \<times> world" where
  "ensure_stock_id_and_defaults w rows =
     (let (rows', changed, w') = ensure_rows ensure_stock_row w rows
      in (rows', if changed then save_json stock_file (JList (map JDict rows')) w' else w'))"

section \<open>Authorization gate\<close>

text \<open>
  The session user that \<^verbatim>\<open>authenticate\<close> builds: \<^verbatim>\<open>ps_number\<close> equals the text typed at
  login, so it is a string; \<^verbatim>\<open>credential\<close> is whatever the users file holds.
\<close>

record user =
  ps_number :: string
  credential :: jval

text \<open>\<^verbatim>\<open>ps in x\<close> for a string \<open>ps\<close>: membership in a list, substring of a string, key of a dict.\<close>

definition substring :: "string \<Rightarrow> string \<Rightarrow> bool" where
  "substring p t = list_ex (\<lambda>i. take (length p) (drop i t) = p) [0..<Suc (length t)]"

fun str_in :: "string \<Rightarrow> jval \<Rightarrow> py_error + bool" where
  "str_in p (JList xs) = Inr (JStr p \<in> set xs)"
| "str_in p (JStr t) = Inr (substring p t)"
| "str_in p (JDict kvs) = Inr (p \<in> fst ` set kvs)"
| "str_in p JNull = Inl TypeError"
| "str_in p (JBool b) = Inl TypeError"
| "str_in p (JInt n) = Inl TypeError"

text \<open>The comprehension \<^verbatim>\<open>[s for s in schools if ps in s.get("coaches", [])]\<close>.\<close>

fun coach_schools :: "string \<Rightarrow> jval list \<Rightarrow> py_error + jval list" where
  "coach_schools ps [] = Inr []"
| "coach_schools ps (s # ss) =
     (case s of
        JDict d \<Rightarrow>
          (case str_in ps (dict_get d ''coaches'' (JList [])) of
             Inl e \<Rightarrow> Inl e
           | Inr b \<Rightarrow>
               (case coach_schools ps ss of
                  Inl e \<Rightarrow> Inl e
                | Inr rest \<Rightarrow> Inr (if b then s # rest else rest)))
      | _ \<Rightarrow> Inl AttributeError)"

definition list_user_schools :: "user \<Rightarrow> jval list \<Rightarrow> py_error + jval list" where
  "list_user_schools u schools =
     (if credential u = JStr ''Admin'' then Inr schools
      else coach_schools (ps_number u) schools)"

section \<open>Request workflow\<close>

text \<open>
  A loop \<^verbatim>\<open>for row in x\<close> whose body calls \<^verbatim>\<open>row.get\<close> needs \<open>x\<close> to be a list of objects;
  on anything else it raises (the error \<open>e\<close> of the call site) before the function has
  written anything.
\<close>

fun dict_rows :: "py_error \<Rightarrow> jval list \<Rightarrow> py_error + row list" where
  "dict_rows e [] = Inr []"
| "dict_rows e (x # xs) =
     (case x of
        JDict d \<Rightarrow> (case dict_rows e xs of Inl err \<Rightarrow> Inl err | Inr ds \<Rightarrow> Inr (d # ds))
      | _ \<Rightarrow> Inl e)"

definition as_rows :: "py_error \<Rightarrow> jval \<Rightarrow> py_error + row list" where
  "as_rows e v =
     (case v of
        JList xs \<Rightarrow> dict_rows e xs
      | JDict kvs \<Rightarrow> Inl e
      | JStr t \<Rightarrow> Inl e
      | _ \<Rightarrow> Inl TypeError)"

text \<open>
  \<^verbatim>\<open>for x in v\<close> over a JSON value: the elements of a list, the keys of an object, the
  characters of a text; nothing else can be iterated.
\<close>

definition py_iter :: "jval \<Rightarrow> py_error + jval list" where
  "py_iter v =
     (case v of
        JList xs \<Rightarrow> Inr xs
      | JDict kvs \<Rightarrow> Inr (map (\<lambda>kv. JStr (fst kv)) kvs)
      | JStr t \<Rightarrow> Inr (map (\<lambda>c. JStr [c]) t)
      | _ \<Rightarrow> Inl TypeError)"

text \<open>
  \<^verbatim>\<open>ensure_request_id_and_defaults\<close> on whatever \<^verbatim>\<open>load_json\<close> returned. On an element that
  is an object the loop body is \<open>ensure_request_row\<close>. On a text or a list, \<^verbatim>\<open>"id" not in r\<close>
  is a substring or membership test; when it finds the key missing, the assignment
  \<^verbatim>\<open>r["id"] = ...\<close> raises \<^verbatim>\<open>TypeError\<close>, and so does the test itself on any other value.
  An element that passes the three tests is left as it is.
\<close>

definition ensure_request_value :: "world \<Rightarrow> jval \<Rightarrow> py_error + (jval \<times> bool \<times> world)" where
  "ensure_request_value w x =
     (case x of
        JDict r \<Rightarrow> (let (r', c, w') = ensure_request_row w r in Inr (JDict r', c, w'))
      | _ \<Rightarrow>
          if str_in ''id'' x = Inr True \<and> str_in ''status'' x = Inr True \<and>
             str_in ''ps_number'' x = Inr True
          then Inr (x, False, w)
          else Inl TypeError)"

fun ensure_values :: "world \<Rightarrow> jval list \<Rightarrow> py_error + (jval list \<times> bool \<times> world)" where
  "ensure_values w [] = Inr ([], False, w)"
| "ensure_values w (x # xs) =
     (case ensure_request_value w x of
        Inl e \<Rightarrow> Inl e
      | Inr (x', c, w1) \<Rightarrow>
          (case ensure_values w1 xs of
             Inl e \<Rightarrow> Inl e
           | Inr (xs', c', w2) \<Rightarrow> Inr (x' # xs', c \<or> c', w2)))"

text \<open>
  The function returns its argument: a list with its objects updated in place, any other
  value as it is (only objects are ever changed).
\<close>

definition ensure_request_id_and_defaults_on :: "world \<Rightarrow> jval \<Rightarrow> py_error + (jval \<times> world)" where
  "ensure_request_id_and_defaults_on w v =
     (case py_iter v of
        Inl e \<Rightarrow> Inl e
      | Inr xs \<Rightarrow>
          (case ensure_values w xs of
             Inl e \<Rightarrow> Inl e
           | Inr (xs', changed, w') \<Rightarrow>
               (let v' = (case v of JList ys \<Rightarrow> JList xs' | _ \<Rightarrow> v)
                in Inr (v', if changed then save_json requests_file v' w' else w'))))"

text \<open>\<^verbatim>\<open>load_requests_data()\<close>: rows, source and the remote error, if any.\<close>

definition load_requests_data ::
    "world \<Rightarrow> py_error + ((jval \<times> source \<times> py_error option) \<times> world)" where
  "load_requests_data w =
     (let (rows, src, err, w1) =
            (if configured w
             then (case remote_select w ''requests'' 100001 of
                     Inl e \<Rightarrow> ([], Local, Some e, w)
                   | Inr data \<Rightarrow>
                       (data, Supabase, None, save_json requests_file (JList (map JDict data)) w))
             else ([], Local, None, w));
          (v, src') = (if rows = [] then (py_or (load_json w1 requests_file) (JList []), Local)
                       else (JList (map JDict rows), src))
      in case ensure_request_id_and_defaults_on w1 v of
           Inl e \<Rightarrow> Inl e
         | Inr (v', w2) \<Rightarrow> Inr ((v', src', err), w2))"

record persist_result =
  saved :: nat
  synced :: nat
  error :: "py_error option"

text \<open>\<^verbatim>\<open>by_id\<close> of \<^verbatim>\<open>persist_requests\<close>: the existing rows whose stripped id text is not empty.\<close>

definition row_rid :: "row \<Rightarrow> string" where
  "row_rid row = strip (py_str (dict_get row ''id'' (JStr [])))"

definition index_existing :: "row list \<Rightarrow> (string \<times> row) list" where
  "index_existing rows =
     foldl (\<lambda>m row. if row_rid row \<noteq> [] then dict_set (row_rid row) row m else m) [] rows"

text \<open>\<^verbatim>\<open>int(d["quantity"])\<close> under \<^verbatim>\<open>try ... except Exception: pass\<close>, when the key is there.\<close>

definition coerce_quantity :: "row \<Rightarrow> row" where
  "coerce_quantity r =
     (case map_of r ''quantity'' of
        None \<Rightarrow> r
      | Some q \<Rightarrow> (case py_int q of Some n \<Rightarrow> dict_set ''quantity'' (JInt n) r | None \<Rightarrow> r))"

definition request_item :: "world \<Rightarrow> jval \<Rightarrow> string \<times> row \<times> world" where
  "request_item w rec =
     (let item = (case rec of JDict d \<Rightarrow> d | _ \<Rightarrow> []);
          rid0 = strip (py_str (py_or (dict_get item ''id'' JNull) (JStr [])));
          (rid, w') = (if rid0 \<noteq> [] then (rid0, w) else uuid4 w);
          item1 = dict_set ''id'' (JStr rid) item;
          item2 = setdefault ''status'' (JStr ''Pending'') item1;
          item3 = setdefault ''ps_number'' (JStr ''unknown'') item2
      in (rid, coerce_quantity item3, w'))"

definition request_fields :: "string list" where
  "request_fields =
     [''id'', ''school_id'', ''category'', ''material'', ''quantity'', ''date'', ''ps_number'',
      ''status'']"

definition payload_row :: "row \<Rightarrow> row" where
  "payload_row item = map (\<lambda>k. (k, dict_get item k JNull)) request_fields"

fun persist_loop :: "world \<Rightarrow> (string \<times> row) list \<Rightarrow> jval list
    \<Rightarrow> (string \<times> row) list \<times> row list \<times> world" where
  "persist_loop w by_id [] = (by_id, [], w)"
| "persist_loop w by_id (rec # recs) =
     (let (rid, item, w1) = request_item w rec;
          (by_id', payload, w2) = persist_loop w1 (dict_set rid item by_id) recs
      in (by_id', payload_row item # payload, w2))"

definition persist_requests :: "world \<Rightarrow> jval list \<Rightarrow> py_error + (persist_result \<times> world)" where
  "persist_requests w records =
     (if records = [] then Inr (\<lparr>saved = 0, synced = 0, error = None\<rparr>, w)
      else
        (case as_rows AttributeError (py_or (load_json w requests_file) (JList [])) of
           Inl e \<Rightarrow> Inl e
         | Inr existing \<Rightarrow>
             (let (by_id, payload, w1) = persist_loop w (index_existing existing) records;
                  w2 = save_json requests_file (JList (map (\<lambda>kv. JDict (snd kv)) by_id)) w1
              in if configured w2 \<and> payload \<noteq> []
                 then (case remote_upsert ''requests'' payload (Some ''id'') w2 of
                         Inl e \<Rightarrow>
                           Inr (\<lparr>saved = length records, synced = 0, error = Some e\<rparr>, w2)
                       | Inr w3 \<Rightarrow>
                           Inr (\<lparr>saved = length records, synced = length payload,
                                 error = None\<rparr>, w3))
                 else Inr (\<lparr>saved = length records, synced = 0, error = None\<rparr>, w2))))"

subsection \<open>Manage Requests: the pending split and Save Changes\<close>















text \<open>
  The page above the button. An Admin sees every row; anyone else sees the rows whose
  \<^verbatim>\<open>school_id\<close> text is the id text of one of the schools that \<^verbatim>\<open>list_user_schools\<close> returns
  for the schools file.
\<close>

definition is_admin_user :: "user \<Rightarrow> bool" where
  "is_admin_user u = (credential u = JStr ''Admin'')"

definition school_text :: "row \<Rightarrow> string" where
  "school_text r = py_str (dict_get r ''school_id'' (JStr []))"

text \<open>\<^verbatim>\<open>{str(s.get("id")) for s in my_schools if s.get("id")}\<close>.\<close>

definition school_ids :: "row list \<Rightarrow> string list" where
  "school_ids ss =
     map (\<lambda>s. py_str (dict_get s ''id'' JNull)) (filter (\<lambda>s. truthy (dict_get s ''id'' JNull)) ss)"

definition visible_requests :: "user \<Rightarrow> row list \<Rightarrow> world \<Rightarrow> py_error + row list" where
  "visible_requests u rows w =
     (if is_admin_user u then Inr rows
      else (case py_iter (py_or (load_json w schools_file) (JList [])) of
              Inl e \<Rightarrow> Inl e
            | Inr all_schools \<Rightarrow>
                (case list_user_schools u all_schools of
                   Inl e \<Rightarrow> Inl e
                 | Inr my_schools \<Rightarrow>
                     (case dict_rows AttributeError my_schools of
                        Inl e \<Rightarrow> Inl e
                      | Inr ms \<Rightarrow>
                          Inr (filter (\<lambda>r. school_text r \<in> set (school_ids ms)) rows)))))"

text \<open>
  \<^verbatim>\<open>school_map\<close>, built for both roles from the schools file: the school name by id text.
\<close>

definition school_map :: "world \<Rightarrow> py_error + (string \<times> jval) list" where
  "school_map w =
     (case py_iter (py_or (load_json w schools_file) (JList [])) of
        Inl e \<Rightarrow> Inl e
      | Inr all_schools \<Rightarrow>
          (case dict_rows AttributeError all_schools of
             Inl e \<Rightarrow> Inl e
           | Inr ss \<Rightarrow>
               Inr (foldl (\<lambda>m s. dict_set (py_str (dict_get s ''id'' JNull))
                                     (dict_get s ''nome'' (JStr [])) m)
                      [] (filter (\<lambda>s. truthy (dict_get s ''id'' JNull)) ss))))"

text \<open>
  The school filter. The select box offers the school ids of the visible rows; \<open>sel\<close> is the
  id whose option was chosen, \<open>None\<close> for \<^verbatim>\<open>All schools\<close> (the default). The id is read back
  from the option text \<^verbatim>\<open>name (id)\<close>: what follows the last \<^verbatim>\<open>(\<close>, without \<^verbatim>\<open>)\<close>, stripped.
\<close>

definition visible_school_ids :: "row list \<Rightarrow> string list" where
  "visible_school_ids visible =
     map school_text (filter (\<lambda>r. truthy (dict_get r ''school_id'' JNull)) visible)"

definition sel_id_of :: "string \<Rightarrow> string" where
  "sel_id_of sid =
     strip (filter (\<lambda>c. c \<noteq> CHR 0x29) (rev (takeWhile (\<lambda>c. c \<noteq> CHR 0x28) (rev sid))))"

definition school_filter :: "string option \<Rightarrow> row list \<Rightarrow> row list" where
  "school_filter sel visible =
     (case sel of
        None \<Rightarrow> visible
      | Some sid \<Rightarrow>
          if sid \<in> set (visible_school_ids visible)
          then filter (\<lambda>r. school_text r = sel_id_of sid) visible
          else visible)"

definition manage_requests_view :: "user \<Rightarrow> string option \<Rightarrow> row list \<Rightarrow> world
    \<Rightarrow> py_error + row list" where
  "manage_requests_view u sel rows w =
     (case visible_requests u rows w of
        Inl e \<Rightarrow> Inl e
      | Inr visible \<Rightarrow>
          (case school_map w of
             Inl e \<Rightarrow> Inl e
           | Inr m \<Rightarrow> Inr (school_filter sel visible)))"



section \<open>Sync engine\<close>

definition tables :: "(string \<times> string) list" where
  "tables =
     [(''users'', ''users.json''), (''schools'', ''schools.json''),
      (''materials'', ''materials.json''), (''requests'', ''requests.json''),
      (''stock_kimonos'', ''stock_kimonos.json'')]"

definition allowed_fields :: "string \<Rightarrow> string list option" where
  "allowed_fields =
     map_of
       [(''users'', [''ps_number'', ''password'', ''credential'', ''name'']),
        (''schools'', [''id'', ''nome'', ''city'', ''coaches'']),
        (''materials'', [''category'', ''subcategory'', ''item'']),
        (''requests'', request_fields),
        (''stock_kimonos'', [''id'', ''school_id'', ''project'', ''type'', ''size'', ''quantity''])]"

definition conflict_targets :: "string \<Rightarrow> string option" where
  "conflict_targets =
     map_of
       [(''users'', ''ps_number''), (''schools'', ''id''), (''requests'', ''id''),
        (''stock_kimonos'', ''id'')]"

definition clear_key :: "string \<Rightarrow> string option" where
  "clear_key =
     map_of
       [(''users'', ''ps_number''), (''schools'', ''id''), (''materials'', ''category''),
        (''requests'', ''id'')]"

text \<open>
  The state of the \<^verbatim>\<open>for table, filename in TABLES.items()\<close> loop. \<^verbatim>\<open>first_time_sync\<close> is
  assigned inside the \<^verbatim>\<open>try\<close> of the check only: it is unbound (\<open>None\<close>) until a check has
  succeeded, and keeps the value of the previous table when the check of this one raises.
\<close>

record sync_state =
  sw :: world
  first_time_sync :: "bool option"
  total_synced :: nat
  total_skipped :: nat
  total_errors :: nat

text \<open>Shaping of one row that is a dict; \<open>None\<close> is the \<^verbatim>\<open>continue\<close> of the coaches case.\<close>

definition shape_row :: "string \<Rightarrow> string list \<Rightarrow> row \<Rightarrow> row option" where
  "shape_row table cols row =
     (let shaped_row = filter (\<lambda>kv. fst kv \<in> set cols) row
      in if table = ''coaches'' \<and> map_of shaped_row ''ps_number'' = None then None
         else (let s1 = (if table = ''coaches'' then setdefault ''name'' (JStr []) shaped_row
                         else shaped_row)
               in Some (if table = ''requests'' then coerce_quantity s1 else s1)))"

fun shape_rows :: "string \<Rightarrow> string list \<Rightarrow> jval list \<Rightarrow> row list" where
  "shape_rows table cols [] = []"
| "shape_rows table cols (x # xs) =
     (case x of
        JDict row \<Rightarrow>
          (case shape_row table cols row of
             None \<Rightarrow> shape_rows table cols xs
           | Some r \<Rightarrow> r # shape_rows table cols xs)
      | _ \<Rightarrow> shape_rows table cols xs)"

text \<open>
  \<^verbatim>\<open>shaped = data\<close> unless the table is in \<^verbatim>\<open>allowed_fields\<close>; every table of \<^verbatim>\<open>TABLES\<close> is,
  so the first case is never taken in a sync pass (it keeps the dicts of \<open>data\<close>).
\<close>

definition shape_data :: "string \<Rightarrow> jval list \<Rightarrow> row list" where
  "shape_data table data =
     (case allowed_fields table of
        None \<Rightarrow> concat (map (\<lambda>x. case x of JDict d \<Rightarrow> [d] | _ \<Rightarrow> []) data)
      | Some cols \<Rightarrow> shape_rows table cols data)"

definition sync_check :: "bool \<Rightarrow> bool \<Rightarrow> string \<Rightarrow> sync_state \<Rightarrow> bool \<times> sync_state" where
  "sync_check force replace table st =
     (case remote_select (sw st) table 1 of
        Inl e \<Rightarrow> (False, st\<lparr>sw := notify (CheckFailed table) (sw st)\<rparr>)
      | Inr existing \<Rightarrow>
          (let existing_count = length existing;
               st1 = st\<lparr>first_time_sync := Some (existing_count = 0 \<and> \<not> force \<and> \<not> replace)\<rparr>
           in if \<not> force \<and> existing_count > 0
              then (True, st1\<lparr>sw := notify (Skipped table) (sw st1),
                              total_skipped := total_skipped st1 + 1\<rparr>)
              else (False, st1)))"

definition sync_clear :: "string \<Rightarrow> world \<Rightarrow> world" where
  "sync_clear table w =
     (case clear_key table of
        None \<Rightarrow> w
      | Some key \<Rightarrow>
          (case remote_delete_neq table key w of
             Inl e \<Rightarrow> notify (ClearFailed table) w
           | Inr w' \<Rightarrow> notify (Cleared table) w'))"

definition mirror_rows :: "row list \<Rightarrow> row list" where
  "mirror_rows shaped =
     map (\<lambda>r. [(''ps_number'', dict_get r ''ps_number'' JNull),
               (''password'', dict_get r ''password'' JNull),
               (''credential'', dict_get r ''credential'' (JStr ''Coach''))])
         (filter (\<lambda>r. truthy (dict_get r ''ps_number'' JNull)) shaped)"

definition sync_mirror :: "row list \<Rightarrow> world \<Rightarrow> world" where
  "sync_mirror shaped w =
     (let mirrored = mirror_rows shaped
      in if mirrored = [] then w
         else (case remote_upsert ''coaches'' mirrored (Some ''ps_number'') w of
                 Inl e \<Rightarrow> notify MirrorSkipped w
               | Inr w' \<Rightarrow> notify (Mirrored (length mirrored)) w'))"

definition remove_local :: "string \<Rightarrow> world \<Rightarrow> world" where
  "remove_local filename w =
     (if undeletable w filename then notify (DeleteLocalFailed filename) w
      else notify (DeletedLocal filename) (w\<lparr>files := (files w)(filename := None)\<rparr>))"

text \<open>The outer \<^verbatim>\<open>try\<close> of one table: clear, upsert, first-sync cleanup, mirror.\<close>

definition sync_push :: "bool \<Rightarrow> string \<Rightarrow> string \<Rightarrow> row list \<Rightarrow> sync_state \<Rightarrow> sync_state" where
  "sync_push replace table filename shaped st =
     (let w0 = (if replace then sync_clear table (sw st) else sw st)
      in case remote_upsert table shaped (conflict_targets table) w0 of
           Inl e \<Rightarrow> st\<lparr>sw := notify (SyncError table) w0, total_errors := total_errors st + 1\<rparr>
         | Inr w1 \<Rightarrow>
             (let w2 = notify (Synced table (length shaped)) w1;
                  st2 = st\<lparr>total_synced := total_synced st + 1\<rparr>
              in case first_time_sync st of
                   None \<Rightarrow>
                     st2\<lparr>sw := notify (SyncError table) w2, total_errors := total_errors st + 1\<rparr>
                 | Some fts \<Rightarrow>
                     (let w3 = (if fts then remove_local filename w2 else w2)
                      in st2\<lparr>sw := (if table = ''users'' then sync_mirror shaped w3 else w3)\<rparr>)))"

text \<open>
  One iteration of the loop. \<open>Inl\<close> is an exception that leaves the function, with the
  state reached when it was raised.
\<close>

definition sync_table :: "bool \<Rightarrow> bool \<Rightarrow> sync_state \<Rightarrow> string \<times> string
    \<Rightarrow> (py_error \<times> sync_state) + sync_state" where
  "sync_table force replace st tf =
     (let table = fst tf; filename = snd tf
      in case files (sw st) filename of
           None \<Rightarrow> Inr (st\<lparr>sw := notify (FileNotFound filename) (sw st)\<rparr>)
         | Some content \<Rightarrow>
             (let (skip, st1) = sync_check force replace table st
              in if skip then Inr st1
                 else (case content of
                         Unparsable \<Rightarrow> Inl (JSONDecodeError, st1)
                       | Json data \<Rightarrow>
                           (case data of
                              JList xs \<Rightarrow>
                                Inr (sync_push replace table filename (shape_data table xs) st1)
                            | _ \<Rightarrow> Inr (st1\<lparr>sw := notify (InvalidFormat table) (sw st1)\<rparr>)))))"

fun sync_tables :: "bool \<Rightarrow> bool \<Rightarrow> sync_state \<Rightarrow> (string \<times> string) list
    \<Rightarrow> (py_error \<times> sync_state) + sync_state" where
  "sync_tables force replace st [] = Inr st"
| "sync_tables force replace st (tf # tfs) =
     (case sync_table force replace st tf of
        Inl x \<Rightarrow> Inl x
      | Inr st' \<Rightarrow> sync_tables force replace st' tfs)"

definition sync_local_to_supabase :: "bool \<Rightarrow> bool \<Rightarrow> world \<Rightarrow> (py_error \<times> world) + world" where
  "sync_local_to_supabase force replace w =
     (if \<not> configured w then Inr (notify NotConfigured w)
      else (case sync_tables force replace
                   \<lparr>sw = w, first_time_sync = None, total_synced = 0, total_skipped = 0,
                    total_errors = 0\<rparr> tables of
              Inl (e, st) \<Rightarrow> Inl (e, sw st)
            | Inr st \<Rightarrow>
                Inr (notify (SyncSummary (total_synced st) (total_skipped st) (total_errors st))
                       (sw st))))"

text \<open>
  The Data Sync page: the replace checkbox is only shown when force is ticked; the three
  buttons call \<^verbatim>\<open>sync_local_to_supabase\<close> with these flags.
\<close>

datatype sync_button = SyncButton | ForceUpsertAll | ReplaceRemoteWithLocal

definition data_sync_flags :: "bool \<Rightarrow> bool \<Rightarrow> sync_button \<Rightarrow> bool \<times> bool" where
  "data_sync_flags force_box replace_box b =
     (case b of
        SyncButton \<Rightarrow> (force_box, if force_box then replace_box else False)
      | ForceUpsertAll \<Rightarrow> (True, False)
      | ReplaceRemoteWithLocal \<Rightarrow> (True, True))"

text \<open>A click on one of the three buttons: the only calls of \<^verbatim>\<open>sync_local_to_supabase\<close>.\<close>

definition data_sync_click :: "bool \<Rightarrow> bool \<Rightarrow> sync_button \<Rightarrow> world
    \<Rightarrow> (py_error \<times> world) + world" where
  "data_sync_click force_box replace_box b w =
     (let (force, replace) = data_sync_flags force_box replace_box b
      in sync_local_to_supabase force replace w)"

subsection \<open>Pull\<close>

definition pull_files :: "(string \<times> string) list" where
  "pull_files =
     [(''users'', users_file), (''schools'', schools_file), (''materials'', materials_file),
      (''requests'', requests_file), (''stock_kimonos'', stock_file)]"

text \<open>
  \<^verbatim>\<open>{k: r.get(k) for k in cols}\<close>. \<^verbatim>\<open>cols\<close> is a set, whose order Python does not fix; the
  model writes the keys in the order of the allowed-field list.
\<close>

definition pull_shape :: "string list \<Rightarrow> row \<Rightarrow> row" where
  "pull_shape cols r = map (\<lambda>k. (k, dict_get r k JNull)) cols"

definition pull_cols :: "string \<Rightarrow> string list" where
  "pull_cols table = (case allowed_fields table of None \<Rightarrow> [] | Some cols \<Rightarrow> cols)"

definition pull_table :: "world \<times> nat \<times> nat \<Rightarrow> string \<times> string \<Rightarrow> world \<times> nat \<times> nat" where
  "pull_table st tp =
     (let (w, pulled, errors) = st; table = fst tp; path = snd tp
      in case remote_select w table 100001 of
           Inl e \<Rightarrow> (notify (PullError table) w, pulled, errors + 1)
         | Inr rows \<Rightarrow>
             (let shaped = map (pull_shape (pull_cols table)) rows
              in (notify (Pulled table (length shaped))
                    (save_json path (JList (map JDict shaped)) w),
                  pulled + 1, errors)))"

definition pull_supabase_to_local :: "world \<Rightarrow> world" where
  "pull_supabase_to_local w =
     (if \<not> configured w then notify NotConfigured w
      else (let (w', pulled, errors) = foldl pull_table (w, 0, 0) pull_files
            in notify (PullSummary pulled errors) w'))"

section \<open>Vocabulary of the properties\<close>

text \<open>A world for concrete runs: no local file, a reachable and empty remote.\<close>

definition demo_world :: world where
  "demo_world =
     \<lparr>files = Map.empty, configured = True, remote = (\<lambda>t. []), rfails = (\<lambda>op t. False),
      undeletable = (\<lambda>p. False), uuid_src = (\<lambda>n. replicate (Suc n) CHR ''u''), uuid_ctr = 0,
      events = [], writes = []\<rparr>"

text \<open>A school record as the data model has it: an object whose \<^verbatim>\<open>coaches\<close>, if any, is a list.\<close>

definition school_ok :: "jval \<Rightarrow> bool" where
  "school_ok s =
     (case s of
        JDict d \<Rightarrow> (case dict_get d ''coaches'' (JList []) of JList xs \<Rightarrow> True | _ \<Rightarrow> False)
      | _ \<Rightarrow> False)"

definition coached_by :: "string \<Rightarrow> jval \<Rightarrow> bool" where
  "coached_by ps s =
     (case s of
        JDict d \<Rightarrow>
          (case dict_get d ''coaches'' (JList []) of JList xs \<Rightarrow> JStr ps \<in> set xs | _ \<Rightarrow> False)
      | _ \<Rightarrow> False)"

text \<open>
  The coaches of a school as Admin Schools reads the field when it saves: a text is split
  at the commas, a list is taken entry by entry, each entry stripped and the blank ones
  dropped; anything else is no coach.
\<close>

fun split_on :: "char \<Rightarrow> string \<Rightarrow> string list" where
  "split_on c [] = [[]]"
| "split_on c (x # xs) =
     (if x = c then [] # split_on c xs
      else (case split_on c xs of [] \<Rightarrow> [[x]] | p # ps \<Rightarrow> (x # p) # ps))"

definition coaches_of :: "jval \<Rightarrow> string list" where
  "coaches_of s =
     (case s of
        JDict d \<Rightarrow>
          (case dict_get d ''coaches'' JNull of
             JStr t \<Rightarrow> filter (\<lambda>x. x \<noteq> []) (map strip (split_on CHR '','' t))
           | JList xs \<Rightarrow> filter (\<lambda>x. x \<noteq> []) (map (\<lambda>x. strip (py_str x)) xs)
           | _ \<Rightarrow> [])
      | _ \<Rightarrow> [])"

text \<open>
  Schools as the schools file can hold them: \<^verbatim>\<open>coaches\<close> as comma-separated text, which the
  Admin Schools page reads and shows, and \<^verbatim>\<open>coaches\<close> \<^verbatim>\<open>null\<close>, which a pull writes for a
  remote row without coaches.
\<close>

definition text_coaches_school :: jval where
  "text_coaches_school =
     JDict [(''id'', JStr ''2''), (''nome'', JStr ''Alliance''), (''city'', JStr ''Dubai''),
            (''coaches'', JStr ''PS10,PS2'')]"

definition null_coaches_school :: jval where
  "null_coaches_school =
     JDict [(''id'', JStr ''3''), (''nome'', JStr ''Nova''), (''city'', JStr ''Sharjah''),
            (''coaches'', JNull)]"

text \<open>\<^verbatim>\<open>ps in s.get("coaches", [])\<close> is true, for a school of any shape.\<close>

definition py_coached_by :: "string \<Rightarrow> jval \<Rightarrow> bool" where
  "py_coached_by ps s =
     (case s of
        JDict d \<Rightarrow> str_in ps (dict_get d ''coaches'' (JList [])) = Inr True
      | _ \<Rightarrow> False)"

text \<open>The local requests file can be iterated as a list of objects (or is absent or empty).\<close>

definition requests_file_ok :: "world \<Rightarrow> bool" where
  "requests_file_ok w =
     (\<not> isl (as_rows AttributeError (py_or (load_json w requests_file) (JList []))))"

definition local_requests :: "world \<Rightarrow> row list" where
  "local_requests w =
     (case as_rows AttributeError (py_or (load_json w requests_file) (JList [])) of
        Inl e \<Rightarrow> []
      | Inr rows \<Rightarrow> rows)"

text \<open>
  A request as the Submit Request page builds it: a stripped, non-empty string id, a status,
  a requester, and an integer quantity if any.
\<close>

definition complete_request :: "jval \<Rightarrow> bool" where
  "complete_request r =
     (case r of
        JDict d \<Rightarrow>
          (case map_of d ''id'' of Some (JStr i) \<Rightarrow> i \<noteq> [] \<and> strip i = i | _ \<Rightarrow> False) \<and>
          map_of d ''status'' \<noteq> None \<and> map_of d ''ps_number'' \<noteq> None \<and>
          (case map_of d ''quantity'' of None \<Rightarrow> True | Some (JInt n) \<Rightarrow> True | Some _ \<Rightarrow> False)
      | _ \<Rightarrow> False)"

definition offline_world :: world where
  "offline_world =
     demo_world
       \<lparr>files := [requests_file \<mapsto>
                    Json (JList [JDict [(''id'', JStr ''k1''), (''status'', JStr ''Approved'')],
                                 JDict [(''id'', JStr ''  ''), (''material'', JStr ''belt'')],
                                 JDict [(''material'', JStr ''gi'')]])],
        rfails := (\<lambda>op t. True)\<rparr>"

definition new_request :: jval where
  "new_request =
     JDict [(''id'', JStr ''k2''), (''school_id'', JStr ''1565''), (''category'', JStr ''Kimono''),
            (''material'', JStr ''gi A2''), (''quantity'', JInt 3),
            (''date'', JStr ''2025-11-09 10:00:00''), (''ps_number'', JStr ''PS1724''),
            (''status'', JStr ''Pending'')]"

text \<open>The identifiers that the records of a collection carry, in order.\<close>

definition ids_of :: "row list \<Rightarrow> jval list" where
  "ids_of rows = concat (map (\<lambda>r. case map_of r ''id'' of None \<Rightarrow> [] | Some v \<Rightarrow> [v]) rows)"

text \<open>
  What is expected of \<^verbatim>\<open>uuid.uuid4()\<close>: the values still to come differ from each other and
  from the identifiers already in the collection.
\<close>

definition uuid_fresh :: "world \<Rightarrow> row list \<Rightarrow> bool" where
  "uuid_fresh w rows =
     (inj_on (uuid_src w) {uuid_ctr w..} \<and>
      (\<forall>n \<ge> uuid_ctr w. JStr (uuid_src w n) \<notin> set (ids_of rows)))"

text \<open>
  The identifiers a run is to leave, record by record: a record that has an \<^verbatim>\<open>id\<close> field
  keeps its value, whatever it is; a record without the field gets the next value of
  \<^verbatim>\<open>uuid4\<close>, as text.
\<close>

fun expected_ids :: "(nat \<Rightarrow> string) \<Rightarrow> nat \<Rightarrow> row list \<Rightarrow> jval list" where
  "expected_ids src n [] = []"
| "expected_ids src n (r # rs) =
     (case map_of r ''id'' of
        None \<Rightarrow> JStr (src n) # expected_ids src (Suc n) rs
      | Some v \<Rightarrow> v # expected_ids src n rs)"

text \<open>
  An identifier, as \<^verbatim>\<open>persist_requests\<close> reads the id of a record it saves: the text
  \<^verbatim>\<open>str(id or "")\<close> is not blank. \<^verbatim>\<open>null\<close>, empty and blank text are no identifier.
\<close>

definition is_identifier :: "jval \<Rightarrow> bool" where
  "is_identifier v = (strip (py_str (py_or v (JStr []))) \<noteq> [])"

text \<open>
  \<open>r'\<close> is the stock row \<open>r\<close> after a run, as far as the identity goes: the \<^verbatim>\<open>id\<close> field is
  there and an id of \<open>r\<close> is kept, the quantity is an integer, and every field other than
  id, quantity and project is as it was.
\<close>

definition stock_kept :: "row \<Rightarrow> row \<Rightarrow> bool" where
  "stock_kept r r' =
     ((\<forall>x. map_of r ''id'' = Some x \<longrightarrow> map_of r' ''id'' = Some x) \<and>
      map_of r' ''id'' \<noteq> None \<and>
      (case map_of r' ''quantity'' of Some (JInt n) \<Rightarrow> True | _ \<Rightarrow> False) \<and>
      (\<forall>k. k \<noteq> ''id'' \<and> k \<noteq> ''quantity'' \<and> k \<noteq> ''project'' \<longrightarrow> map_of r' k = map_of r k))"

text \<open>
  A request that has the fields id, status and ps_number, whatever their values (also
  \<^verbatim>\<open>null\<close> or empty text); a normalized stock row.
\<close>

definition request_normal :: "row \<Rightarrow> bool" where
  "request_normal r =
     (map_of r ''id'' \<noteq> None \<and> map_of r ''status'' \<noteq> None \<and> map_of r ''ps_number'' \<noteq> None)"

definition stock_normal :: "row \<Rightarrow> bool" where
  "stock_normal r =
     (map_of r ''id'' \<noteq> None \<and>
      (case map_of r ''quantity'' of Some (JInt n) \<Rightarrow> True | _ \<Rightarrow> False) \<and>
      (case map_of r ''project'' of Some (JStr p) \<Rightarrow> upper (strip p) = p | _ \<Rightarrow> True))"

text \<open>
  \<open>r'\<close> is \<open>r\<close> with the request defaults: every field of \<open>r\<close> is kept with its value, the
  \<^verbatim>\<open>id\<close> field is present, status and requester are those of \<open>r\<close> or the defaults.
\<close>

definition request_defaulted :: "row \<Rightarrow> row \<Rightarrow> bool" where
  "request_defaulted r r' =
     ((\<forall>k x. map_of r k = Some x \<longrightarrow> map_of r' k = Some x) \<and>
      map_of r' ''id'' \<noteq> None \<and>
      map_of r' ''status'' = Some (dict_get r ''status'' (JStr ''Pending'')) \<and>
      map_of r' ''ps_number'' = Some (dict_get r ''ps_number'' (JStr ''unknown'')))"

text \<open>
  \<open>r'\<close> is \<open>r\<close> with the stock defaults: the \<^verbatim>\<open>id\<close> field is present and an id of \<open>r\<close> is
  kept, the quantity is the integer \<^verbatim>\<open>int\<close> reads from \<open>r\<close>'s quantity, or 0 when it is
  absent or invalid, and a string project label is trimmed and in upper case (for ASCII
  text, as everywhere).
\<close>

definition stock_defaulted :: "row \<Rightarrow> row \<Rightarrow> bool" where
  "stock_defaulted r r' =
     ((\<forall>x. map_of r ''id'' = Some x \<longrightarrow> map_of r' ''id'' = Some x) \<and>
      map_of r' ''id'' \<noteq> None \<and>
      map_of r' ''quantity'' =
        Some (JInt (case map_of r ''quantity'' of
                      None \<Rightarrow> 0
                    | Some q \<Rightarrow> (case py_int q of None \<Rightarrow> 0 | Some n \<Rightarrow> n))) \<and>
      map_of r' ''project'' =
        (case map_of r ''project'' of
           Some (JStr p) \<Rightarrow> Some (JStr (upper (strip p)))
         | other \<Rightarrow> other) \<and>
      (\<forall>k. k \<noteq> ''id'' \<and> k \<noteq> ''quantity'' \<and> k \<noteq> ''project'' \<longrightarrow> map_of r' k = map_of r k))"

text \<open>A stock file with one row whose quantity is text and whose project label is untrimmed.\<close>

definition stock_rows :: "row list" where
  "stock_rows =
     [[(''id'', JStr ''s1''), (''school_id'', JStr ''1565''), (''project'', JStr '' moe ''),
       (''type'', JStr ''A''), (''size'', JStr ''C1''), (''quantity'', JStr ''5'')]]"

definition stock_world :: world where
  "stock_world = demo_world\<lparr>files := [stock_file \<mapsto> Json (JList (map JDict stock_rows))]\<rparr>"

text \<open>The stages of \<^verbatim>\<open>ensure_stock_id_and_defaults\<close> on one row, after the id.\<close>

definition stock_qty :: "row \<Rightarrow> int" where
  "stock_qty r = (case map_of r ''quantity'' of
                      None \<Rightarrow> 0
                    | Some q \<Rightarrow> (case py_int q of None \<Rightarrow> 0 | Some n \<Rightarrow> n))"

definition stock_flag :: "row \<Rightarrow> bool" where
  "stock_flag r = (case map_of r ''quantity'' of None \<Rightarrow> True | Some q \<Rightarrow> py_int q = None)"

definition stock_project :: "row \<Rightarrow> row" where
  "stock_project r = (case map_of r ''project'' of
                  Some (JStr p) \<Rightarrow> dict_set ''project'' (JStr (upper (strip p))) r
                | _ \<Rightarrow> r)"

text \<open>The world a sync pass ends in, whether it returned or raised.\<close>

definition sync_world :: "(py_error \<times> world) + world \<Rightarrow> world" where
  "sync_world res = (case res of Inl ew \<Rightarrow> snd ew | Inr w \<Rightarrow> w)"

text \<open>The reports of a remote clear: it was run, or it was attempted and failed.\<close>

fun is_clear :: "event \<Rightarrow> bool" where
  "is_clear (Cleared t) = True"
| "is_clear (ClearFailed t) = True"
| "is_clear e = False"

definition clear_events :: "world \<Rightarrow> event list" where
  "clear_events w = filter is_clear (events w)"

text \<open>
  Worlds for sync passes. In \<open>replace_world\<close> the schools table of the remote is empty; in
  \<open>blind_world\<close> it holds a row and the existence check of that table raises.
\<close>

definition replace_world :: world where
  "replace_world =
     demo_world\<lparr>files := [''schools.json'' \<mapsto> Json (JList [JDict [(''id'', JStr ''1'')]])]\<rparr>"

definition blind_world :: world where
  "blind_world =
     replace_world
       \<lparr>remote := (\<lambda>t. if t = ''schools'' then [[(''id'', JStr ''9''), (''nome'', JStr ''Old'')]]
                         else []),
        rfails := (\<lambda>op t. op = Select \<and> t = ''schools'')\<rparr>"

text \<open>All five files are there; \<^verbatim>\<open>schools.json\<close> is not JSON.\<close>

definition broken_world :: world where
  "broken_world =
     demo_world
       \<lparr>files := [''users.json'' \<mapsto>
                    Json (JList [JDict [(''ps_number'', JStr ''PS1724''),
                                        (''password'', JStr ''PS1724''),
                                        (''credential'', JStr ''Admin''),
                                        (''name'', JStr ''Administrator'')]]),
                  ''schools.json'' \<mapsto> Unparsable,
                  ''materials.json'' \<mapsto> Json (JList []),
                  ''requests.json'' \<mapsto> Json (JList [JDict [(''id'', JStr ''k1'')]]),
                  ''stock_kimonos.json'' \<mapsto> Json (JList [])]\<rparr>"

text \<open>A loop state at the schools table: the file is there and the remote already has a row.\<close>

definition skip_state :: sync_state where
  "skip_state =
     \<lparr>sw = replace_world\<lparr>remote := (\<lambda>t. if t = ''schools''
                                           then [[(''id'', JStr ''9''), (''nome'', JStr ''Old'')]]
                                           else [])\<rparr>,
      first_time_sync = Some True, total_synced = 1, total_skipped = 0, total_errors = 0\<rparr>"

text \<open>The loop state a table step ends in, whether it returned or raised.\<close>

definition sync_state_of :: "(py_error \<times> sync_state) + sync_state \<Rightarrow> sync_state" where
  "sync_state_of res = (case res of Inl es \<Rightarrow> snd es | Inr st \<Rightarrow> st)"

text \<open>A first sync of schools: one local record with a field the table does not have.\<close>

definition roundtrip_world :: world where
  "roundtrip_world =
     demo_world
       \<lparr>files := [''schools.json'' \<mapsto>
                    Json (JList [JDict [(''id'', JStr ''1''), (''nome'', JStr ''Gracie''),
                                        (''mascot'', JStr ''owl'')]])]\<rparr>"

definition roundtrip_state :: sync_state where
  "roundtrip_state =
     \<lparr>sw = roundtrip_world, first_time_sync = None, total_synced = 0, total_skipped = 0,
      total_errors = 0\<rparr>"

text \<open>
  The identifier of a row as a dict key, and rows whose identifiers are usable and pairwise
  different as dict keys (the data model's unique key).
\<close>

definition row_id :: "row \<Rightarrow> jval" where
  "row_id r = dict_get r ''id'' JNull"






text \<open>The coach of school 1565 and an Admin, as \<^verbatim>\<open>authenticate\<close> returns them.\<close>

definition coach_ps1 :: user where
  "coach_ps1 = \<lparr>ps_number = ''PS1'', credential = JStr ''Coach''\<rparr>"


definition school_1565 :: jval where
  "school_1565 =
     JDict [(''id'', JStr ''1565''), (''nome'', JStr ''Gracie''), (''city'', JStr ''Abu Dhabi''),
            (''coaches'', JList [JStr ''PS1''])]"





text \<open>
  A stretch of a sync pass that leaves table \<open>t\<close> of the remote and the local file \<open>f\<close>
  alone: it only adds reports.
\<close>

definition untouched :: "string \<Rightarrow> string \<Rightarrow> world \<Rightarrow> world \<Rightarrow> bool" where
  "untouched t f w w' =
     (rfails w' = rfails w \<and> configured w' = configured w \<and> files w' f = files w f \<and>
      remote w' t = remote w t \<and> (\<exists>evs. events w' = events w @ evs))"

section \<open>Properties\<close>

subsection \<open>Dictionaries\<close>

lemma map_of_dict_set: "map_of (dict_set k v m) = (map_of m)(k \<mapsto> v)"
  by (induction m) (auto simp: fun_eq_iff)

lemma dict_set_same: "map_of m k = Some v \<Longrightarrow> dict_set k v m = m"
  by (induction m) (auto split: if_splits)

lemma dict_set_mem: "(k, v) \<in> set (dict_set k v m)"
  by (induction m) auto

lemma dict_set_values: "x \<in> set (dict_set k v m) \<Longrightarrow> x = (k, v) \<or> x \<in> set m"
  by (induction m) (auto split: if_splits)

lemma map_of_setdefault:
  "map_of (setdefault k v r) = (if map_of r k = None then (map_of r)(k \<mapsto> v) else map_of r)"
  by (simp add: setdefault_def map_of_dict_set)

lemma map_of_coerce_quantity:
  "k \<noteq> ''quantity'' \<Longrightarrow> map_of (coerce_quantity r) k = map_of r k"
  by (simp add: coerce_quantity_def map_of_dict_set split: option.splits)

subsection \<open>Authorization gate\<close>

lemma coach_schools_filter:
  "list_all school_ok schools \<Longrightarrow> coach_schools ps schools = Inr (filter (coached_by ps) schools)"
  by (induction schools)
     (auto simp: school_ok_def coached_by_def split: jval.splits)

lemma coach_schools_sound:
  "coach_schools ps schools = Inr res \<Longrightarrow> res = filter (py_coached_by ps) schools"
proof (induction schools arbitrary: res)
  case Nil
  then show ?case by simp
next
  case (Cons s ss)
  then show ?case
    by (cases s) (auto simp: py_coached_by_def split: sum.splits if_splits)
qed

text \<open>
  Where the listing is exact: an Admin gets the schools collection as it is; any other user
  gets, of a collection of school objects whose \<^verbatim>\<open>coaches\<close> is a list (or absent), exactly
  the schools whose coaches list contains the user's ps_number, in the collection's order.
  For a collection of any shape, what the call returns to such a user is the part of the
  collection for which \<^verbatim>\<open>ps in s.get("coaches", [])\<close> is true.
\<close>

lemma list_user_schools_on_lists:
  "(credential u = JStr ''Admin'' \<longrightarrow> list_user_schools u schools = Inr schools) \<and>
   (credential u \<noteq> JStr ''Admin'' \<and> list_all school_ok schools \<longrightarrow>
      (\<exists>res. list_user_schools u schools = Inr res \<and>
             res = filter (coached_by (ps_number u)) schools \<and>
             (\<forall>s \<in> set res. s \<in> set schools \<and> coached_by (ps_number u) s))) \<and>
   (credential u \<noteq> JStr ''Admin'' \<longrightarrow>
      (\<forall>res. list_user_schools u schools = Inr res \<longrightarrow>
             res = filter (py_coached_by (ps_number u)) schools))"
  by (auto simp: list_user_schools_def coach_schools_filter dest: coach_schools_sound)

lemma list_user_schools_on_lists_example:
  "list_user_schools \<lparr>ps_number = ''PS1'', credential = JStr ''Coach''\<rparr>
     [JDict [(''id'', JStr ''1''), (''coaches'', JList [JStr ''PS1''])],
      JDict [(''id'', JStr ''2''), (''coaches'', JList [JStr ''PS10''])],
      JDict [(''id'', JStr ''3'')]]
   = Inr [JDict [(''id'', JStr ''1''), (''coaches'', JList [JStr ''PS1''])]] \<and>
   list_user_schools \<lparr>ps_number = ''PS9'', credential = JStr ''Admin''\<rparr>
     [JDict [(''id'', JStr ''2''), (''coaches'', JList [JStr ''PS10''])]]
   = Inr [JDict [(''id'', JStr ''2''), (''coaches'', JList [JStr ''PS10''])]]"
  by (simp add: list_user_schools_def dict_get_def)

text \<open>
  C4. The coach PS1 coaches school 1565. School 2 holds its coaches as the text
  \<^verbatim>\<open>PS10,PS2\<close>: its coaches are PS10 and PS2, and PS1 is not one of them. The listing for
  PS1 returns school 2 all the same, because \<^verbatim>\<open>ps in s.get("coaches", [])\<close> on a text is a
  substring test. With \<^verbatim>\<open>coaches\<close> \<^verbatim>\<open>null\<close> in school 3 the listing raises \<^verbatim>\<open>TypeError\<close>
  and returns nothing.
\<close>

theorem list_user_schools_text_coaches:
  "coaches_of text_coaches_school = [''PS10'', ''PS2''] \<and>
   ps_number coach_ps1 \<notin> set (coaches_of text_coaches_school) \<and>
   list_user_schools coach_ps1 [school_1565, text_coaches_school]
     = Inr [school_1565, text_coaches_school] \<and>
   coaches_of null_coaches_school = [] \<and>
   list_user_schools coach_ps1 [school_1565, null_coaches_school] = Inl TypeError"
  by code_simp

subsection \<open>Persisting requests\<close>

lemma request_item_complete:
  assumes "complete_request (JDict d)"
  shows "\<exists>i. request_item w (JDict d) = (i, d, w)"
proof -
  from assms obtain i where i: "map_of d ''id'' = Some (JStr i)" "i \<noteq> []" "strip i = i"
    by (auto simp: complete_request_def split: option.splits jval.splits)
  from assms obtain s p where st: "map_of d ''status'' = Some s"
    and ps: "map_of d ''ps_number'' = Some p"
    by (auto simp: complete_request_def)
  from assms have q: "coerce_quantity d = d"
    by (auto simp: complete_request_def coerce_quantity_def dict_set_same
             split: option.splits jval.splits)
  show ?thesis
    using i st ps q
    by (simp add: request_item_def dict_get_def py_or_def py_str_def dict_set_same setdefault_def)
qed

text \<open>
  C1. When the remote is configured and its upsert fails, \<^verbatim>\<open>persist_requests([r])\<close> (on a
  local file it can read as a list of objects) returns saved = 1, synced = 0 and an error.
  The local file then holds the record as persist stores it (id stripped or generated,
  defaults filled, quantity coerced), which is \<open>r\<close> itself when \<open>r\<close> is a complete request.
  The remote is untouched, and the file written is the one that the same call writes with no
  remote configured at all: the local write does not depend on the remote attempt.
\<close>

theorem persist_unreachable_remote:
  assumes "configured w" and "rfails w Upsert ''requests''" and "requests_file_ok w"
  shows "\<exists>res w' stored res0 w0.
           persist_requests w [r] = Inr (res, w') \<and>
           saved res = 1 \<and> synced res = 0 \<and> error res \<noteq> None \<and>
           files w' requests_file = Some (Json (JList stored)) \<and>
           JDict (fst (snd (request_item w r))) \<in> set stored \<and>
           (complete_request r \<longrightarrow> r \<in> set stored) \<and>
           remote w' = remote w \<and>
           persist_requests (w\<lparr>configured := False\<rparr>) [r] = Inr (res0, w0) \<and>
           files w0 = files w'"
proof -
  from assms(3) obtain existing where
    ex: "as_rows AttributeError (py_or (load_json w requests_file) (JList [])) = Inr existing"
    by (cases "as_rows AttributeError (py_or (load_json w requests_file) (JList []))")
       (auto simp: requests_file_ok_def)
  obtain rid item w1 where ri: "request_item w r = (rid, item, w1)"
    by (cases "request_item w r") auto
  have cfg: "configured w1 = configured w" "rfails w1 = rfails w" "remote w1 = remote w"
    using ri by (auto simp: request_item_def uuid4_def Let_def split: if_splits prod.splits)
  have ri0: "request_item (w\<lparr>configured := False\<rparr>) r = (rid, item, w1\<lparr>configured := False\<rparr>)"
    using ri by (auto simp: request_item_def uuid4_def Let_def split: if_splits prod.splits)
  have lj: "load_json (w\<lparr>configured := False\<rparr>) requests_file = load_json w requests_file"
    by (simp add: load_json_def)
  have mem: "JDict item
      \<in> set (map (\<lambda>kv. JDict (snd kv)) (dict_set rid item (index_existing existing)))"
    using dict_set_mem[of rid item "index_existing existing"] by force
  have compl: "complete_request r \<longrightarrow> JDict item = r"
  proof
    assume c: "complete_request r"
    then obtain d where d: "r = JDict d" by (cases r) (auto simp: complete_request_def)
    with c request_item_complete[of d w] ri show "JDict item = r" by auto
  qed
  show ?thesis
    using assms(1,2) ex ri ri0 cfg lj mem compl
    by (auto simp: persist_requests_def save_json_def remote_upsert_def)
qed

theorem persist_unreachable_remote_witness:
  "configured offline_world \<and> rfails offline_world Upsert ''requests'' \<and>
   requests_file_ok offline_world \<and> complete_request new_request \<and>
   (\<exists>res w' stored.
      persist_requests offline_world [new_request] = Inr (res, w') \<and>
      saved res = 1 \<and> synced res = 0 \<and> error res \<noteq> None \<and>
      files w' requests_file = Some (Json (JList stored)) \<and> new_request \<in> set stored)"
proof -
  have h1: "configured offline_world" and h2: "rfails offline_world Upsert ''requests''"
    by (simp_all add: offline_world_def demo_world_def)
  have h3: "requests_file_ok offline_world"
    by (simp add: offline_world_def demo_world_def requests_file_ok_def load_json_def py_or_def
                  as_rows_def)
  have h4: "complete_request new_request"
    by (simp add: complete_request_def new_request_def strip_def is_space_def)
  from persist_unreachable_remote[OF h1 h2 h3, of new_request] h4
  show ?thesis using h1 h2 h3 by blast
qed

lemma last_dropWhile: "dropWhile P xs \<noteq> [] \<Longrightarrow> last (dropWhile P xs) = last xs"
  by (induction xs) (auto split: if_splits)

lemma strip_idem: "strip (strip s) = strip s"
proof -
  define t where "t = dropWhile is_space s"
  define u where "u = dropWhile is_space (rev t)"
  have s: "strip s = rev u" by (simp add: strip_def t_def u_def)
  have "dropWhile is_space (rev u) = rev u"
  proof (cases "u = []")
    case True then show ?thesis by simp
  next
    case False
    then have "last u = last (rev t)" unfolding u_def by (rule last_dropWhile)
    moreover from False have "t \<noteq> []" by (auto simp: u_def)
    ultimately have "last u = hd t" by (simp add: last_rev)
    moreover have "\<not> is_space (hd t)" using \<open>t \<noteq> []\<close> unfolding t_def by (rule hd_dropWhile)
    ultimately have "\<not> is_space (hd (rev u))" using False by (simp add: hd_rev)
    then show ?thesis by (simp add: dropWhile_eq_self_iff)
  qed
  moreover have "dropWhile is_space u = u" by (simp add: u_def)
  ultimately have "strip (rev u) = rev u" by (simp add: strip_def)
  then show ?thesis by (simp only: s)
qed

lemma index_existing_acc:
  "\<forall>row \<in> snd ` set m. P row \<Longrightarrow> (\<And>row. row \<in> set rows \<Longrightarrow> row_rid row \<noteq> [] \<Longrightarrow> P row) \<Longrightarrow>
   \<forall>row \<in> snd ` set (foldl (\<lambda>m row. if row_rid row \<noteq> [] then dict_set (row_rid row) row m else m) m rows). P row"
proof (induction rows arbitrary: m)
  case Nil then show ?case by simp
next
  case (Cons r rs)
  show ?case
  proof (cases "row_rid r \<noteq> []")
    case True
    have "\<forall>row \<in> snd ` set (dict_set (row_rid r) r m). P row"
      using Cons.prems(1) Cons.prems(2)[of r] True by (auto dest: dict_set_values)
    from Cons.IH[OF this] Cons.prems(2) True show ?thesis by simp
  next
    case False
    from Cons.IH[OF Cons.prems(1)] Cons.prems(2) False show ?thesis by simp
  qed
qed

lemma index_existing_rids: "\<forall>row \<in> snd ` set (index_existing rows). row_rid row \<noteq> []"
  unfolding index_existing_def
  by (rule index_existing_acc) auto

lemma request_item_rid:
  assumes "\<forall>n. strip (uuid_src w n) \<noteq> []" and "request_item w rec = (rid, item, w1)"
  shows "row_rid item \<noteq> [] \<and> uuid_src w1 = uuid_src w"
proof -
  define item0 where "item0 = (case rec of JDict d \<Rightarrow> d | _ \<Rightarrow> [])"
  define rid0 where "rid0 = strip (py_str (py_or (dict_get item0 ''id'' JNull) (JStr [])))"
  have rid: "rid = (if rid0 \<noteq> [] then rid0 else uuid_src w (uuid_ctr w))"
    and w1: "uuid_src w1 = uuid_src w"
    using assms(2)
    by (auto simp: request_item_def item0_def rid0_def uuid4_def Let_def split: if_splits)
  have "map_of item ''id'' = Some (JStr rid)"
    using assms(2)
    by (auto simp: request_item_def Let_def map_of_coerce_quantity map_of_setdefault
                   map_of_dict_set split: prod.splits)
  then have "row_rid item = strip rid" by (simp add: row_rid_def dict_get_def py_str_def)
  moreover have "strip rid \<noteq> []"
    using assms(1) by (auto simp: rid rid0_def strip_idem)
  ultimately show ?thesis using w1 by simp
qed

lemma persist_loop_rids:
  assumes "\<forall>n. strip (uuid_src w n) \<noteq> []" and "\<forall>row \<in> snd ` set by_id. row_rid row \<noteq> []"
    and "persist_loop w by_id recs = (by_id', payload, w')"
  shows "\<forall>row \<in> snd ` set by_id'. row_rid row \<noteq> []"
  using assms
proof (induction recs arbitrary: w by_id payload by_id' w')
  case Nil then show ?case by simp
next
  case (Cons rec recs)
  obtain rid item w1 where ri: "request_item w rec = (rid, item, w1)"
    by (cases "request_item w rec") auto
  obtain b p w2 where pl: "persist_loop w1 (dict_set rid item by_id) recs = (b, p, w2)"
    by (cases "persist_loop w1 (dict_set rid item by_id) recs") auto
  from request_item_rid[OF Cons.prems(1) ri] have it: "row_rid item \<noteq> []" and src: "uuid_src w1 = uuid_src w"
    by auto
  have inv: "\<forall>row \<in> snd ` set (dict_set rid item by_id). row_rid row \<noteq> []"
    using it Cons.prems(2) by (auto dest: dict_set_values)
  have "\<forall>n. strip (uuid_src w1 n) \<noteq> []" using Cons.prems(1) src by simp
  from Cons.IH[OF this inv pl] have "\<forall>row \<in> snd ` set b. row_rid row \<noteq> []" .
  moreover have "by_id' = b" using Cons.prems(3) ri pl by simp
  ultimately show ?case by simp
qed

text \<open>
  C10. A call of \<^verbatim>\<open>persist_requests\<close> with a non-empty record list (on a local file it can
  read as a list of objects, with \<^verbatim>\<open>uuid4\<close> returning non-blank text) rewrites the local
  requests file so that every record in it has an id whose text, stripped, is not empty.
  A record of the old file whose id is missing or blank is not in the new file, whether or
  not it was among the records saved. (The text of a JSON \<^verbatim>\<open>null\<close> id is \<^verbatim>\<open>None\<close>, which is
  not blank.)
\<close>

theorem persist_drops_blank_ids:
  assumes "records \<noteq> []" and "requests_file_ok w" and "\<forall>n. strip (uuid_src w n) \<noteq> []"
  shows "\<exists>res w' stored.
           persist_requests w records = Inr (res, w') \<and>
           files w' requests_file = Some (Json (JList (map JDict stored))) \<and>
           (\<forall>row \<in> set stored. \<exists>v. map_of row ''id'' = Some v \<and> strip (py_str v) \<noteq> []) \<and>
           (\<forall>row \<in> set (local_requests w).
              (map_of row ''id'' = None \<or> (\<exists>v. map_of row ''id'' = Some v \<and> strip (py_str v) = []))
              \<longrightarrow> row \<notin> set stored)"
proof -
  from assms(2) obtain existing where
    ex: "as_rows AttributeError (py_or (load_json w requests_file) (JList [])) = Inr existing"
    by (cases "as_rows AttributeError (py_or (load_json w requests_file) (JList []))")
       (auto simp: requests_file_ok_def)
  obtain by_id payload w1 where pl: "persist_loop w (index_existing existing) records = (by_id, payload, w1)"
    by (cases "persist_loop w (index_existing existing) records") auto
  define stored where "stored = map snd by_id"
  have inv: "\<forall>row \<in> set stored. row_rid row \<noteq> []"
    using persist_loop_rids[OF assms(3) index_existing_rids pl] by (simp add: stored_def)
  have rid_iff: "\<And>row. row_rid row \<noteq> [] \<longleftrightarrow> (\<exists>v. map_of row ''id'' = Some v \<and> strip (py_str v) \<noteq> [])"
    by (auto simp: row_rid_def dict_get_def py_str_def strip_def split: option.splits)
  have m: "map (\<lambda>kv. JDict (snd kv)) by_id = map JDict stored" by (simp add: stored_def)
  have "\<exists>res w'. persist_requests w records = Inr (res, w') \<and>
           files w' requests_file = Some (Json (JList (map JDict stored)))"
    using assms(1) ex pl m
    by (auto simp: persist_requests_def save_json_def remote_upsert_def Let_def)
  moreover have "\<forall>row \<in> set stored. \<exists>v. map_of row ''id'' = Some v \<and> strip (py_str v) \<noteq> []"
    using inv rid_iff by blast
  moreover have "\<forall>row \<in> set (local_requests w).
              (map_of row ''id'' = None \<or> (\<exists>v. map_of row ''id'' = Some v \<and> strip (py_str v) = []))
              \<longrightarrow> row \<notin> set stored"
    using inv rid_iff by force
  ultimately show ?thesis by blast
qed

lemma strip_empty_iff: "strip s = [] \<longleftrightarrow> (\<forall>c \<in> set s. is_space c)"
proof
  assume "strip s = []"
  then have a: "\<forall>c \<in> set (dropWhile is_space s). is_space c"
    by (simp add: strip_def dropWhile_eq_Nil_conv)
  have "dropWhile is_space s = []"
  proof (rule ccontr)
    assume n: "dropWhile is_space s \<noteq> []"
    then have "\<not> is_space (hd (dropWhile is_space s))" by (rule hd_dropWhile)
    with a n show False by (metis hd_in_set)
  qed
  then show "\<forall>c \<in> set s. is_space c" by (simp add: dropWhile_eq_Nil_conv)
next
  assume "\<forall>c \<in> set s. is_space c"
  then have e: "dropWhile is_space s = []" by (simp add: dropWhile_eq_Nil_conv)
  show "strip s = []" unfolding strip_def e by simp
qed

theorem persist_drops_blank_ids_witness:
  "[new_request] \<noteq> [] \<and> requests_file_ok offline_world \<and>
   (\<forall>n. strip (uuid_src offline_world n) \<noteq> []) \<and>
   [(''id'', JStr ''  ''), (''material'', JStr ''belt'')] \<in> set (local_requests offline_world) \<and>
   [(''material'', JStr ''gi'')] \<in> set (local_requests offline_world) \<and>
   (\<exists>res w' stored.
      persist_requests offline_world [new_request] = Inr (res, w') \<and>
      files w' requests_file = Some (Json (JList (map JDict stored))) \<and>
      [(''id'', JStr ''  ''), (''material'', JStr ''belt'')] \<notin> set stored \<and>
      [(''material'', JStr ''gi'')] \<notin> set stored)"
proof -
  have h1: "[new_request] \<noteq> []" by simp
  have h2: "requests_file_ok offline_world"
    by (simp add: offline_world_def demo_world_def requests_file_ok_def load_json_def py_or_def
                  as_rows_def)
  have h3: "\<forall>n. strip (uuid_src offline_world n) \<noteq> []"
    by (simp add: offline_world_def demo_world_def strip_empty_iff is_space_def)
  have l: "local_requests offline_world =
      [[(''id'', JStr ''k1''), (''status'', JStr ''Approved'')],
       [(''id'', JStr ''  ''), (''material'', JStr ''belt'')],
       [(''material'', JStr ''gi'')]]"
    by (simp add: offline_world_def demo_world_def local_requests_def load_json_def py_or_def
                  as_rows_def)
  have b: "strip (py_str (JStr ''  '')) = []"
    by (simp add: py_str_def strip_empty_iff is_space_def)
  from persist_drops_blank_ids[OF h1 h2 h3] obtain res w' stored where
    p: "persist_requests offline_world [new_request] = Inr (res, w')"
       "files w' requests_file = Some (Json (JList (map JDict stored)))"
    and d: "\<forall>row \<in> set (local_requests offline_world).
              (map_of row ''id'' = None \<or> (\<exists>v. map_of row ''id'' = Some v \<and> strip (py_str v) = []))
              \<longrightarrow> row \<notin> set stored"
    by blast
  from d l b have "[(''id'', JStr ''  ''), (''material'', JStr ''belt'')] \<notin> set stored"
    and "[(''material'', JStr ''gi'')] \<notin> set stored"
    by auto
  with p h1 h2 h3 l show ?thesis by auto
qed

subsection \<open>Strings\<close>

lemma upper_char_cases:
  "upper_char c = c \<or> (97 \<le> (of_char c :: nat) \<and> (of_char c :: nat) \<le> 122 \<and> (of_char (upper_char c) :: nat) = of_char c - 32)"
  by (auto simp: upper_char_def Let_def)

lemma is_space_upper: "is_space (upper_char c) = is_space c"
  using upper_char_cases[of c] by (auto simp: is_space_def Let_def)

lemma upper_char_idem: "upper_char (upper_char c) = upper_char c"
proof -
  from upper_char_cases[of c] show ?thesis
  proof
    assume "upper_char c = c" then show ?thesis by simp
  next
    assume a: "97 \<le> (of_char c :: nat) \<and> (of_char c :: nat) \<le> 122 \<and> (of_char (upper_char c) :: nat) = of_char c - 32"
    then have "\<not> (97 \<le> (of_char (upper_char c) :: nat))" by linarith
    then show ?thesis by (simp add: upper_char_def[of "upper_char c"] Let_def)
  qed
qed

lemma strip_upper: "strip (upper s) = upper (strip s)"
proof -
  have c: "is_space \<circ> upper_char = is_space" by (simp add: fun_eq_iff is_space_upper)
  show ?thesis
    by (simp add: strip_def upper_def dropWhile_map rev_map c)
qed

lemma upper_idem: "upper (upper s) = upper s"
  by (simp add: upper_def upper_char_idem)

lemma upper_strip_idem: "upper (strip (upper (strip p))) = upper (strip p)"
  by (simp add: strip_upper upper_idem strip_idem)

subsection \<open>Identity and defaults normalizer\<close>

lemma ensure_rows_ids:
  assumes step: "\<And>w r r' c w1. f w r = (r', c, w1) \<Longrightarrow>
      uuid_src w1 = uuid_src w \<and>
      (case map_of r ''id'' of
         None \<Rightarrow> map_of r' ''id'' = Some (JStr (uuid_src w (uuid_ctr w))) \<and>
                  uuid_ctr w1 = Suc (uuid_ctr w)
       | Some v \<Rightarrow> map_of r' ''id'' = Some v \<and> uuid_ctr w1 = uuid_ctr w)"
    and "ensure_rows f w rows = (rows', c, w')"
  shows "uuid_src w' = uuid_src w \<and> uuid_ctr w \<le> uuid_ctr w' \<and>
         set (ids_of rows') \<subseteq> set (ids_of rows) \<union> (\<lambda>n. JStr (uuid_src w n)) ` {uuid_ctr w ..< uuid_ctr w'} \<and>
         (distinct (ids_of rows) \<and> uuid_fresh w rows \<longrightarrow> distinct (ids_of rows'))"
  using assms(2)
proof (induction rows arbitrary: w rows' c w')
  case Nil
  then show ?case by (simp add: ids_of_def)
next
  case (Cons r rs)
  obtain r1 c1 w1 where f: "f w r = (r1, c1, w1)" by (cases "f w r") auto
  obtain rs' c' w2 where e: "ensure_rows f w1 rs = (rs', c', w2)"
    by (cases "ensure_rows f w1 rs") auto
  from Cons.prems f e have res: "rows' = r1 # rs'" "w' = w2" by auto
  from Cons.IH[OF e] have ih:
    "uuid_src w2 = uuid_src w1" "uuid_ctr w1 \<le> uuid_ctr w2"
    "set (ids_of rs') \<subseteq> set (ids_of rs) \<union> (\<lambda>n. JStr (uuid_src w1 n)) ` {uuid_ctr w1 ..< uuid_ctr w2}"
    "distinct (ids_of rs) \<and> uuid_fresh w1 rs \<longrightarrow> distinct (ids_of rs')"
    by auto
  from step[OF f] have src: "uuid_src w1 = uuid_src w" by simp
  show ?case
  proof (cases "map_of r ''id''")
    case None
    from step[OF f] None
    have s: "map_of r1 ''id'' = Some (JStr (uuid_src w (uuid_ctr w)))"
      "uuid_ctr w1 = Suc (uuid_ctr w)"
      by simp_all
    have ids: "ids_of (r # rs) = ids_of rs" "ids_of (r1 # rs') = JStr (uuid_src w (uuid_ctr w)) # ids_of rs'"
      using None s by (simp_all add: ids_of_def)
    have sub: "set (ids_of (r1 # rs')) \<subseteq> set (ids_of (r # rs)) \<union> (\<lambda>n. JStr (uuid_src w n)) ` {uuid_ctr w ..< uuid_ctr w2}"
      using ih(2,3) s(2) src unfolding ids by auto
    have dist: "distinct (ids_of (r # rs)) \<and> uuid_fresh w (r # rs) \<longrightarrow> distinct (ids_of (r1 # rs'))"
    proof
      assume a: "distinct (ids_of (r # rs)) \<and> uuid_fresh w (r # rs)"
      then have fr1: "uuid_fresh w1 rs"
        using s(2) src unfolding ids uuid_fresh_def by (auto intro: inj_on_subset)
      with a ih(4) have d: "distinct (ids_of rs')" unfolding ids by simp
      have "JStr (uuid_src w (uuid_ctr w)) \<notin> set (ids_of rs')"
      proof
        assume "JStr (uuid_src w (uuid_ctr w)) \<in> set (ids_of rs')"
        with ih(3) have "JStr (uuid_src w (uuid_ctr w)) \<in> set (ids_of rs) \<or>
            (\<exists>n. uuid_ctr w1 \<le> n \<and> uuid_src w (uuid_ctr w) = uuid_src w1 n)"
          by (auto simp: subset_iff image_iff dest!: spec[of _ "JStr (uuid_src w (uuid_ctr w))"])
        then show False
        proof (elim disjE exE conjE)
          assume "JStr (uuid_src w (uuid_ctr w)) \<in> set (ids_of rs)"
          with a show False unfolding ids uuid_fresh_def by auto
        next
          fix n assume n: "uuid_ctr w1 \<le> n" "uuid_src w (uuid_ctr w) = uuid_src w1 n"
          from a have "inj_on (uuid_src w) {uuid_ctr w..}" unfolding uuid_fresh_def by simp
          from inj_onD[OF this, of "uuid_ctr w" n] n s(2) src have "uuid_ctr w = n" by simp
          with n s(2) show False by simp
        qed
      qed
      with d show "distinct (ids_of (r1 # rs'))" unfolding ids by simp
    qed
    from ih(1,2) src s(2) sub dist show ?thesis unfolding res by simp
  next
    case (Some v)
    from step[OF f] Some
    have s: "map_of r1 ''id'' = Some v" "uuid_ctr w1 = uuid_ctr w"
      by simp_all
    have ids: "ids_of (r # rs) = v # ids_of rs" "ids_of (r1 # rs') = v # ids_of rs'"
      using Some s by (simp_all add: ids_of_def)
    have sub: "set (ids_of (r1 # rs')) \<subseteq> set (ids_of (r # rs)) \<union> (\<lambda>n. JStr (uuid_src w n)) ` {uuid_ctr w ..< uuid_ctr w2}"
      using ih(2,3) s(2) src unfolding ids by auto
    have dist: "distinct (ids_of (r # rs)) \<and> uuid_fresh w (r # rs) \<longrightarrow> distinct (ids_of (r1 # rs'))"
    proof
      assume a: "distinct (ids_of (r # rs)) \<and> uuid_fresh w (r # rs)"
      then have fr1: "uuid_fresh w1 rs"
        using s(2) src unfolding ids uuid_fresh_def by auto
      with a ih(4) have d: "distinct (ids_of rs')" unfolding ids by simp
      have "v \<notin> set (ids_of rs')"
      proof
        assume "v \<in> set (ids_of rs')"
        with ih(3) have "v \<in> set (ids_of rs) \<or>
            (\<exists>n. uuid_ctr w1 \<le> n \<and> v = JStr (uuid_src w1 n))"
          by (auto simp: subset_iff image_iff dest!: spec[of _ v])
        then show False
        proof (elim disjE exE conjE)
          assume "v \<in> set (ids_of rs)"
          with a show False unfolding ids by simp
        next
          fix n assume n: "uuid_ctr w1 \<le> n" "v = JStr (uuid_src w1 n)"
          with a s(2) src show False unfolding ids uuid_fresh_def by auto
        qed
      qed
      with d show "distinct (ids_of (r1 # rs'))" unfolding ids by simp
    qed
    from ih(1,2) src s(2) sub dist show ?thesis unfolding res by simp
  qed
qed

lemma ensure_id_step:
  "ensure_id w r = (r', c, w1) \<Longrightarrow>
     uuid_src w1 = uuid_src w \<and> files w1 = files w \<and> writes w1 = writes w \<and>
     (case map_of r ''id'' of
        None \<Rightarrow> map_of r' = (map_of r)(''id'' \<mapsto> JStr (uuid_src w (uuid_ctr w))) \<and> c \<and>
                 uuid_ctr w1 = Suc (uuid_ctr w)
      | Some v \<Rightarrow> r' = r \<and> \<not> c \<and> w1 = w)"
  by (auto simp: ensure_id_def uuid4_def map_of_dict_set split: if_splits)

lemma ensure_request_row_map:
  assumes "ensure_request_row w r = (r', c, w1)"
  shows "\<exists>r1 c1. ensure_id w r = (r1, c1, w1) \<and>
           map_of r' = (\<lambda>k. if k = ''status'' then Some (dict_get r1 ''status'' (JStr ''Pending''))
                            else if k = ''ps_number'' then Some (dict_get r1 ''ps_number'' (JStr ''unknown''))
                            else map_of r1 k)"
  using assms
  by (cases "ensure_id w r")
     (auto simp: ensure_request_row_def map_of_dict_set dict_get_def fun_eq_iff
           split: if_splits option.splits)

lemma ensure_request_row_step:
  assumes "ensure_request_row w r = (r', c, w1)"
  shows "uuid_src w1 = uuid_src w \<and>
      (case map_of r ''id'' of
         None \<Rightarrow> map_of r' ''id'' = Some (JStr (uuid_src w (uuid_ctr w))) \<and>
                  uuid_ctr w1 = Suc (uuid_ctr w)
       | Some v \<Rightarrow> map_of r' ''id'' = Some v \<and> uuid_ctr w1 = uuid_ctr w)"
proof -
  from ensure_request_row_map[OF assms] obtain r1 c1 where
    e: "ensure_id w r = (r1, c1, w1)" and m: "map_of r' ''id'' = map_of r1 ''id''"
    by auto
  from ensure_id_step[OF e] m show ?thesis by (auto split: option.splits)
qed

lemma ensure_request_row_defaulted:
  assumes "ensure_request_row w r = (r', c, w1)"
  shows "request_defaulted r r' \<and> request_normal r'"
proof -
  from ensure_request_row_map[OF assms] obtain r1 c1 where
    e: "ensure_id w r = (r1, c1, w1)" and
    m: "map_of r' = (\<lambda>k. if k = ''status'' then Some (dict_get r1 ''status'' (JStr ''Pending''))
                            else if k = ''ps_number'' then Some (dict_get r1 ''ps_number'' (JStr ''unknown''))
                            else map_of r1 k)"
    by auto
  from ensure_id_step[OF e] show ?thesis
    by (cases "map_of r ''id''")
       (auto simp: request_defaulted_def request_normal_def m dict_get_def split: option.splits)
qed

lemma ensure_request_row_fix:
  "request_normal r \<Longrightarrow> ensure_request_row w r = (r, False, w)"
  by (auto simp: request_normal_def ensure_request_row_def ensure_id_def)

lemma ensure_rows_all2:
  assumes "\<And>w r r' c w1. f w r = (r', c, w1) \<Longrightarrow> R r r'"
    and "ensure_rows f w rows = (rows', c, w')"
  shows "list_all2 R rows rows'"
  using assms(2)
proof (induction rows arbitrary: w rows' c w')
  case Nil then show ?case by simp
next
  case (Cons r rs)
  obtain r1 c1 w1 where f: "f w r = (r1, c1, w1)" by (cases "f w r") auto
  obtain rs' c' w2 where e: "ensure_rows f w1 rs = (rs', c', w2)"
    by (cases "ensure_rows f w1 rs") auto
  from Cons.prems f e have "rows' = r1 # rs'" by auto
  with assms(1)[OF f] Cons.IH[OF e] show ?case by simp
qed

lemma ensure_rows_fix:
  assumes "\<And>w r. r \<in> set rows \<Longrightarrow> f w r = (r, False, w)"
  shows "ensure_rows f w rows = (rows, False, w)"
  using assms by (induction rows) auto

lemma ensure_rows_files:
  assumes "\<And>w r r' c w1. f w r = (r', c, w1) \<Longrightarrow> files w1 = files w"
    and "ensure_rows f w rows = (rows', c, w')"
  shows "files w' = files w"
  using assms(2)
proof (induction rows arbitrary: w rows' c w')
  case Nil then show ?case by simp
next
  case (Cons r rs)
  obtain r1 c1 w1 where f: "f w r = (r1, c1, w1)" by (cases "f w r") auto
  obtain rs' c' w2 where e: "ensure_rows f w1 rs = (rs', c', w2)"
    by (cases "ensure_rows f w1 rs") auto
  from Cons.prems f e have "w' = w2" by auto
  with assms(1)[OF f] Cons.IH[OF e] show ?case by simp
qed

lemma ensure_request_normalized:
  "list_all2 request_defaulted rows (fst (ensure_request_id_and_defaults w rows)) \<and>
   list_all request_normal (fst (ensure_request_id_and_defaults w rows)) \<and>
   (distinct (ids_of rows) \<and> uuid_fresh w rows \<longrightarrow>
      distinct (ids_of (fst (ensure_request_id_and_defaults w rows)))) \<and>
   ensure_request_id_and_defaults (snd (ensure_request_id_and_defaults w rows))
       (fst (ensure_request_id_and_defaults w rows))
     = ensure_request_id_and_defaults w rows"
proof -
  obtain rows' c w' where e: "ensure_rows ensure_request_row w rows = (rows', c, w')"
    by (cases "ensure_rows ensure_request_row w rows") auto
  define w2 where "w2 = (if c then save_json requests_file (JList (map JDict rows')) w' else w')"
  have res: "ensure_request_id_and_defaults w rows = (rows', w2)"
    by (simp add: ensure_request_id_and_defaults_def e w2_def)
  have a: "list_all2 (\<lambda>r r'. request_defaulted r r' \<and> request_normal r') rows rows'"
    by (rule ensure_rows_all2[OF _ e]) (rule ensure_request_row_defaulted)
  then have d: "list_all2 request_defaulted rows rows'" and n: "list_all request_normal rows'"
    by (auto simp: list_all2_conv_all_nth list_all_length)
  from ensure_rows_ids[OF _ e] ensure_request_row_step
  have u: "distinct (ids_of rows) \<and> uuid_fresh w rows \<longrightarrow> distinct (ids_of rows')"
    by blast
  have "ensure_rows ensure_request_row w2 rows' = (rows', False, w2)"
    by (rule ensure_rows_fix) (use n in \<open>auto simp: list_all_iff ensure_request_row_fix\<close>)
  then have i: "ensure_request_id_and_defaults w2 rows' = (rows', w2)"
    by (simp add: ensure_request_id_and_defaults_def)
  from d n u i show ?thesis by (simp add: res)
qed

lemma ensure_stock_row_stages:
  "ensure_id w r = (r1, c1, w1) \<Longrightarrow>
   ensure_stock_row w r =
     (stock_project (dict_set ''quantity'' (JInt (stock_qty r1)) r1), c1 \<or> stock_flag r1, w1)"
  by (simp add: ensure_stock_row_def stock_qty_def stock_flag_def stock_project_def
           split: option.splits)

lemma map_of_stock_project:
  "map_of (stock_project r) =
     (\<lambda>k. if k = ''project''
          then (case map_of r ''project'' of
                  Some (JStr p) \<Rightarrow> Some (JStr (upper (strip p)))
                | other \<Rightarrow> other)
          else map_of r k)"
  by (simp add: stock_project_def map_of_dict_set fun_eq_iff split: option.splits jval.splits)

lemma ensure_stock_row_step:
  assumes "ensure_stock_row w r = (r', c, w1)"
  shows "uuid_src w1 = uuid_src w \<and>
      (case map_of r ''id'' of
         None \<Rightarrow> map_of r' ''id'' = Some (JStr (uuid_src w (uuid_ctr w))) \<and>
                  uuid_ctr w1 = Suc (uuid_ctr w)
       | Some v \<Rightarrow> map_of r' ''id'' = Some v \<and> uuid_ctr w1 = uuid_ctr w)"
proof -
  obtain r1 c1 w0 where e: "ensure_id w r = (r1, c1, w0)" by (cases "ensure_id w r") auto
  from ensure_stock_row_stages[OF e] assms
  have r': "r' = stock_project (dict_set ''quantity'' (JInt (stock_qty r1)) r1)" and w: "w1 = w0"
    by simp_all
  have "map_of r' ''id'' = map_of r1 ''id''"
    by (simp add: r' map_of_stock_project map_of_dict_set)
  with ensure_id_step[OF e] w show ?thesis by (auto split: option.splits)
qed

lemma ensure_stock_row_defaulted:
  assumes "ensure_stock_row w r = (r', c, w1)"
  shows "stock_defaulted r r' \<and> stock_normal r'"
proof -
  obtain r1 c1 w0 where e: "ensure_id w r = (r1, c1, w0)" by (cases "ensure_id w r") auto
  from ensure_stock_row_stages[OF e] assms
  have r': "r' = stock_project (dict_set ''quantity'' (JInt (stock_qty r1)) r1)"
    by simp
  have m: "\<And>k. k \<noteq> ''id'' \<Longrightarrow> map_of r1 k = map_of r k" and i: "map_of r1 ''id'' \<noteq> None"
    and k: "\<And>x. map_of r ''id'' = Some x \<Longrightarrow> map_of r1 ''id'' = Some x"
    using ensure_id_step[OF e] by (auto split: option.splits)
  have q: "stock_qty r1 = stock_qty r" by (simp add: stock_qty_def m)
  have d: "stock_defaulted r r'"
    using i k
    by (auto simp: stock_defaulted_def r' map_of_stock_project map_of_dict_set m q
                   stock_qty_def)
  have n: "stock_normal r'"
    using i
    by (auto simp: stock_normal_def r' map_of_stock_project map_of_dict_set upper_strip_idem
             split: option.splits jval.splits)
  from d n show ?thesis by simp
qed

lemma ensure_stock_row_fix:
  assumes "stock_normal r"
  shows "ensure_stock_row w r = (r, False, w)"
proof -
  from assms obtain i n where i: "map_of r ''id'' = Some i" and n: "map_of r ''quantity'' = Some (JInt n)"
    by (auto simp: stock_normal_def split: option.splits jval.splits)
  have e: "ensure_id w r = (r, False, w)" using i by (simp add: ensure_id_def)
  have q: "dict_set ''quantity'' (JInt (stock_qty r)) r = r"
    using n by (simp add: stock_qty_def dict_set_same)
  have f: "\<not> stock_flag r" using n by (simp add: stock_flag_def)
  have p: "stock_project r = r"
    using assms
    by (auto simp: stock_normal_def stock_project_def dict_set_same split: option.splits jval.splits)
  show ?thesis by (simp add: ensure_stock_row_stages[OF e] q f p)
qed

lemma ensure_stock_normalized:
  "list_all2 stock_defaulted rows (fst (ensure_stock_id_and_defaults w rows)) \<and>
   list_all stock_normal (fst (ensure_stock_id_and_defaults w rows)) \<and>
   (distinct (ids_of rows) \<and> uuid_fresh w rows \<longrightarrow>
      distinct (ids_of (fst (ensure_stock_id_and_defaults w rows)))) \<and>
   ensure_stock_id_and_defaults (snd (ensure_stock_id_and_defaults w rows))
       (fst (ensure_stock_id_and_defaults w rows))
     = ensure_stock_id_and_defaults w rows"
proof -
  obtain rows' c w' where e: "ensure_rows ensure_stock_row w rows = (rows', c, w')"
    by (cases "ensure_rows ensure_stock_row w rows") auto
  define w2 where "w2 = (if c then save_json stock_file (JList (map JDict rows')) w' else w')"
  have res: "ensure_stock_id_and_defaults w rows = (rows', w2)"
    by (simp add: ensure_stock_id_and_defaults_def e w2_def)
  have a: "list_all2 (\<lambda>r r'. stock_defaulted r r' \<and> stock_normal r') rows rows'"
    by (rule ensure_rows_all2[OF _ e]) (rule ensure_stock_row_defaulted)
  then have d: "list_all2 stock_defaulted rows rows'" and n: "list_all stock_normal rows'"
    by (auto simp: list_all2_conv_all_nth list_all_length)
  from ensure_rows_ids[OF _ e] ensure_stock_row_step
  have u: "distinct (ids_of rows) \<and> uuid_fresh w rows \<longrightarrow> distinct (ids_of rows')"
    by blast
  have "ensure_rows ensure_stock_row w2 rows' = (rows', False, w2)"
    by (rule ensure_rows_fix) (use n in \<open>auto simp: list_all_iff ensure_stock_row_fix\<close>)
  then have i: "ensure_stock_id_and_defaults w2 rows' = (rows', w2)"
    by (simp add: ensure_stock_id_and_defaults_def)
  from d n u i show ?thesis by (simp add: res)
qed

lemma ensure_rows_expected:
  assumes step: "\<And>w r r' c w1. f w r = (r', c, w1) \<Longrightarrow>
      uuid_src w1 = uuid_src w \<and>
      (case map_of r ''id'' of
         None \<Rightarrow> map_of r' ''id'' = Some (JStr (uuid_src w (uuid_ctr w))) \<and>
                  uuid_ctr w1 = Suc (uuid_ctr w)
       | Some v \<Rightarrow> map_of r' ''id'' = Some v \<and> uuid_ctr w1 = uuid_ctr w)"
    and "ensure_rows f w rows = (rows', c, w')"
  shows "map row_id rows' = expected_ids (uuid_src w) (uuid_ctr w) rows"
  using assms(2)
proof (induction rows arbitrary: w rows' c w')
  case Nil
  then show ?case by simp
next
  case (Cons r rs)
  obtain r1 c1 w1 where f: "f w r = (r1, c1, w1)" by (cases "f w r") auto
  obtain rs' c' w2 where e: "ensure_rows f w1 rs = (rs', c', w2)"
    by (cases "ensure_rows f w1 rs") auto
  from Cons.prems f e have res: "rows' = r1 # rs'" by auto
  from Cons.IH[OF e] have ih: "map row_id rs' = expected_ids (uuid_src w1) (uuid_ctr w1) rs" .
  have h: "row_id r1 = (case map_of r ''id'' of
                          None \<Rightarrow> JStr (uuid_src w (uuid_ctr w))
                        | Some v \<Rightarrow> v)"
    using step[OF f] by (cases "map_of r ''id''") (simp_all add: row_id_def dict_get_def)
  from step[OF f] ih h show ?case
    by (cases "map_of r ''id''") (simp_all add: res)
qed

lemma ids_of_present:
  "list_all (\<lambda>r. map_of r ''id'' \<noteq> None) rows \<Longrightarrow> ids_of rows = map row_id rows"
  by (induction rows) (auto simp: ids_of_def row_id_def dict_get_def)

lemma expected_ids_identifiers:
  assumes "list_all is_identifier (ids_of rows)" and "\<forall>n. is_identifier (JStr (src n))"
  shows "list_all is_identifier (expected_ids src n rows)"
  using assms(1)
proof (induction rows arbitrary: n)
  case Nil
  then show ?case by simp
next
  case (Cons r rs)
  then show ?case using assms(2)
    by (cases "map_of r ''id''") (simp_all add: ids_of_def)
qed

lemma ensure_request_ids:
  "map row_id (fst (ensure_request_id_and_defaults w rows))
     = expected_ids (uuid_src w) (uuid_ctr w) rows"
proof -
  obtain rows' c w' where e: "ensure_rows ensure_request_row w rows = (rows', c, w')"
    by (cases "ensure_rows ensure_request_row w rows") auto
  from ensure_rows_expected[OF _ e] ensure_request_row_step
  have "map row_id rows' = expected_ids (uuid_src w) (uuid_ctr w) rows" by blast
  then show ?thesis by (simp add: ensure_request_id_and_defaults_def e)
qed

lemma ensure_stock_ids:
  "map row_id (fst (ensure_stock_id_and_defaults w rows))
     = expected_ids (uuid_src w) (uuid_ctr w) rows"
proof -
  obtain rows' c w' where e: "ensure_rows ensure_stock_row w rows = (rows', c, w')"
    by (cases "ensure_rows ensure_stock_row w rows") auto
  from ensure_rows_expected[OF _ e] ensure_stock_row_step
  have "map row_id rows' = expected_ids (uuid_src w) (uuid_ctr w) rows" by blast
  then show ?thesis by (simp add: ensure_stock_id_and_defaults_def e)
qed

lemma stock_defaulted_kept: "stock_defaulted r r' \<Longrightarrow> stock_kept r r'"
  by (simp add: stock_defaulted_def stock_kept_def)

text \<open>
  What one run leaves, for requests and for stock rows alike: the identifiers are those of
  \<open>expected_ids\<close>; when the ids already present are identifiers, pairwise different, and
  \<^verbatim>\<open>uuid4\<close> returns fresh identifiers, so is every id after the run.
\<close>

lemma normalized_ids_unique:
  assumes ids: "map row_id rows' = expected_ids (uuid_src w) (uuid_ctr w) rows"
    and pres: "list_all (\<lambda>r. map_of r ''id'' \<noteq> None) rows'"
    and dist: "distinct (ids_of rows) \<and> uuid_fresh w rows \<longrightarrow> distinct (ids_of rows')"
  shows "list_all is_identifier (ids_of rows) \<and> (\<forall>n. is_identifier (JStr (uuid_src w n))) \<and>
         distinct (ids_of rows) \<and> uuid_fresh w rows \<longrightarrow>
           list_all is_identifier (map row_id rows') \<and> distinct (map row_id rows')"
proof
  assume a: "list_all is_identifier (ids_of rows) \<and> (\<forall>n. is_identifier (JStr (uuid_src w n))) \<and>
         distinct (ids_of rows) \<and> uuid_fresh w rows"
  then have "list_all is_identifier (expected_ids (uuid_src w) (uuid_ctr w) rows)"
    by (intro expected_ids_identifiers) simp_all
  then have 1: "list_all is_identifier (map row_id rows')" by (simp only: ids)
  from a dist have "distinct (ids_of rows')" by simp
  then have 2: "distinct (map row_id rows')" by (simp only: ids_of_present[OF pres])
  from 1 2 show "list_all is_identifier (map row_id rows') \<and> distinct (map row_id rows')" ..
qed

text \<open>
  C2 (as amended). One run of the normalizer keeps every field a request had, gives it the
  \<^verbatim>\<open>id\<close> field, a status (that of the record, else Pending) and a ps_number (that of the
  record, else unknown); it gives every stock row the \<^verbatim>\<open>id\<close> field and an integer quantity
  and keeps its other fields. A record that had an id keeps it and a record without the
  field gets the next value of \<^verbatim>\<open>uuid4\<close>. So when the ids already present are identifiers
  and pairwise different, and \<^verbatim>\<open>uuid4\<close> returns fresh identifiers, every record has a
  unique identifier after the run. For every collection, a second run on the output, in
  the world the first run left, returns the same rows and the same world, and writes no
  file: nothing changes and nothing is saved.
\<close>

theorem normalizer_ids_defaults_idempotent:
  "list_all2 request_defaulted rows (fst (ensure_request_id_and_defaults w rows)) \<and>
   map row_id (fst (ensure_request_id_and_defaults w rows))
     = expected_ids (uuid_src w) (uuid_ctr w) rows \<and>
   (list_all is_identifier (ids_of rows) \<and> (\<forall>n. is_identifier (JStr (uuid_src w n))) \<and>
    distinct (ids_of rows) \<and> uuid_fresh w rows \<longrightarrow>
      list_all is_identifier (map row_id (fst (ensure_request_id_and_defaults w rows))) \<and>
      distinct (map row_id (fst (ensure_request_id_and_defaults w rows)))) \<and>
   ensure_request_id_and_defaults (snd (ensure_request_id_and_defaults w rows))
       (fst (ensure_request_id_and_defaults w rows))
     = ensure_request_id_and_defaults w rows \<and>
   writes (snd (ensure_request_id_and_defaults (snd (ensure_request_id_and_defaults w rows))
                  (fst (ensure_request_id_and_defaults w rows))))
     = writes (snd (ensure_request_id_and_defaults w rows)) \<and>
   list_all2 stock_kept srows (fst (ensure_stock_id_and_defaults v srows)) \<and>
   map row_id (fst (ensure_stock_id_and_defaults v srows))
     = expected_ids (uuid_src v) (uuid_ctr v) srows \<and>
   (list_all is_identifier (ids_of srows) \<and> (\<forall>n. is_identifier (JStr (uuid_src v n))) \<and>
    distinct (ids_of srows) \<and> uuid_fresh v srows \<longrightarrow>
      list_all is_identifier (map row_id (fst (ensure_stock_id_and_defaults v srows))) \<and>
      distinct (map row_id (fst (ensure_stock_id_and_defaults v srows)))) \<and>
   ensure_stock_id_and_defaults (snd (ensure_stock_id_and_defaults v srows))
       (fst (ensure_stock_id_and_defaults v srows))
     = ensure_stock_id_and_defaults v srows \<and>
   writes (snd (ensure_stock_id_and_defaults (snd (ensure_stock_id_and_defaults v srows))
                  (fst (ensure_stock_id_and_defaults v srows))))
     = writes (snd (ensure_stock_id_and_defaults v srows))"
proof -
  note rq = ensure_request_normalized[of rows w]
  note sq = ensure_stock_normalized[of srows v]
  have r1: "list_all2 request_defaulted rows (fst (ensure_request_id_and_defaults w rows))"
    using rq by simp
  have r2: "map row_id (fst (ensure_request_id_and_defaults w rows))
              = expected_ids (uuid_src w) (uuid_ctr w) rows"
    by (rule ensure_request_ids)
  have rp: "list_all (\<lambda>r. map_of r ''id'' \<noteq> None) (fst (ensure_request_id_and_defaults w rows))"
    using rq by (auto simp: list_all_iff request_normal_def)
  have rd: "distinct (ids_of rows) \<and> uuid_fresh w rows \<longrightarrow>
              distinct (ids_of (fst (ensure_request_id_and_defaults w rows)))"
    using rq by simp
  note r3 = normalized_ids_unique[OF r2 rp rd]
  have r4: "ensure_request_id_and_defaults (snd (ensure_request_id_and_defaults w rows))
       (fst (ensure_request_id_and_defaults w rows))
     = ensure_request_id_and_defaults w rows"
    using rq by simp
  have r5: "writes (snd (ensure_request_id_and_defaults (snd (ensure_request_id_and_defaults w rows))
                  (fst (ensure_request_id_and_defaults w rows))))
     = writes (snd (ensure_request_id_and_defaults w rows))"
    by (simp only: r4)
  have "list_all2 stock_defaulted srows (fst (ensure_stock_id_and_defaults v srows))"
    using sq by simp
  then have s1: "list_all2 stock_kept srows (fst (ensure_stock_id_and_defaults v srows))"
    by (rule list_all2_mono) (rule stock_defaulted_kept)
  have s2: "map row_id (fst (ensure_stock_id_and_defaults v srows))
              = expected_ids (uuid_src v) (uuid_ctr v) srows"
    by (rule ensure_stock_ids)
  have sp: "list_all (\<lambda>r. map_of r ''id'' \<noteq> None) (fst (ensure_stock_id_and_defaults v srows))"
    using sq by (auto simp: list_all_iff stock_normal_def)
  have sd: "distinct (ids_of srows) \<and> uuid_fresh v srows \<longrightarrow>
              distinct (ids_of (fst (ensure_stock_id_and_defaults v srows)))"
    using sq by simp
  note s3 = normalized_ids_unique[OF s2 sp sd]
  have s4: "ensure_stock_id_and_defaults (snd (ensure_stock_id_and_defaults v srows))
       (fst (ensure_stock_id_and_defaults v srows))
     = ensure_stock_id_and_defaults v srows"
    using sq by simp
  have s5: "writes (snd (ensure_stock_id_and_defaults (snd (ensure_stock_id_and_defaults v srows))
                  (fst (ensure_stock_id_and_defaults v srows))))
     = writes (snd (ensure_stock_id_and_defaults v srows))"
    by (simp only: s4)
  from r1 r2 r3 r4 r5 s1 s2 s3 s4 s5 show ?thesis by (intro conjI)
qed

text \<open>
  Two requests that share the id \<^verbatim>\<open>a\<close> still share it after the run: the normalizer fills
  in missing identifiers and does not repair duplicates. And an id that is there is kept
  whatever it is: a record whose id is \<^verbatim>\<open>null\<close> or empty text has no identifier after the
  run either.
\<close>

theorem normalizer_unique_ids_counterexample:
  "\<not> distinct (ids_of (fst (ensure_request_id_and_defaults demo_world
        [[(''id'', JStr ''a''), (''material'', JStr ''gi'')],
         [(''id'', JStr ''a''), (''material'', JStr ''belt'')]]))) \<and>
   map row_id (fst (ensure_request_id_and_defaults demo_world
                      [[(''id'', JNull), (''material'', JStr ''gi'')],
                       [(''id'', JStr []), (''material'', JStr ''belt'')]]))
     = [JNull, JStr []] \<and>
   \<not> is_identifier JNull \<and> \<not> is_identifier (JStr [])"
  by code_simp

theorem normalizer_ids_defaults_idempotent_witness:
  "list_all is_identifier (ids_of [[(''material'', JStr ''gi'')], [(''id'', JStr ''a'')]]) \<and>
   (\<forall>n. is_identifier (JStr (uuid_src demo_world n))) \<and>
   distinct (ids_of [[(''material'', JStr ''gi'')], [(''id'', JStr ''a'')]]) \<and>
   uuid_fresh demo_world [[(''material'', JStr ''gi'')], [(''id'', JStr ''a'')]] \<and>
   map row_id (fst (ensure_request_id_and_defaults demo_world
                      [[(''material'', JStr ''gi'')], [(''id'', JStr ''a'')]]))
     = [JStr ''u'', JStr ''a''] \<and>
   list_all is_identifier
     (map row_id (fst (ensure_request_id_and_defaults demo_world
                         [[(''material'', JStr ''gi'')], [(''id'', JStr ''a'')]]))) \<and>
   distinct (map row_id (fst (ensure_request_id_and_defaults demo_world
                                [[(''material'', JStr ''gi'')], [(''id'', JStr ''a'')]]))) \<and>
   list_all is_identifier (ids_of stock_rows) \<and>
   (\<forall>n. is_identifier (JStr (uuid_src stock_world n))) \<and>
   distinct (ids_of stock_rows) \<and> uuid_fresh stock_world stock_rows \<and>
   list_all is_identifier (map row_id (fst (ensure_stock_id_and_defaults stock_world stock_rows))) \<and>
   distinct (map row_id (fst (ensure_stock_id_and_defaults stock_world stock_rows)))"
proof -
  have i: "\<And>n. is_identifier (JStr (replicate (Suc n) CHR ''u''))"
    by (simp add: is_identifier_def py_or_def py_str_def strip_empty_iff is_space_def)
  have a: "is_identifier (JStr ''a'')" "is_identifier (JStr ''s1'')"
    by (simp_all add: is_identifier_def py_or_def py_str_def strip_empty_iff is_space_def)
  have h0: "list_all is_identifier (ids_of [[(''material'', JStr ''gi'')], [(''id'', JStr ''a'')]])"
    using a by (simp add: ids_of_def)
  have u0: "\<forall>n. is_identifier (JStr (uuid_src demo_world n))"
    using i by (simp add: demo_world_def)
  have h1: "distinct (ids_of [[(''material'', JStr ''gi'')], [(''id'', JStr ''a'')]])"
    by (simp add: ids_of_def)
  have h2: "uuid_fresh demo_world [[(''material'', JStr ''gi'')], [(''id'', JStr ''a'')]]"
    by (auto simp: uuid_fresh_def demo_world_def ids_of_def inj_on_def)
  have s0: "list_all is_identifier (ids_of stock_rows)"
    using a by (simp add: ids_of_def stock_rows_def)
  have u1: "\<forall>n. is_identifier (JStr (uuid_src stock_world n))"
    using i by (simp add: stock_world_def demo_world_def)
  have h3: "distinct (ids_of stock_rows)" by (simp add: ids_of_def stock_rows_def)
  have h4: "uuid_fresh stock_world stock_rows"
    by (auto simp: uuid_fresh_def stock_world_def demo_world_def ids_of_def stock_rows_def
                   inj_on_def)
  have e: "expected_ids (uuid_src demo_world) (uuid_ctr demo_world)
             [[(''material'', JStr ''gi'')], [(''id'', JStr ''a'')]] = [JStr ''u'', JStr ''a'']"
    by (simp add: demo_world_def)
  note t = normalizer_ids_defaults_idempotent
         [of "[[(''material'', JStr ''gi'')], [(''id'', JStr ''a'')]]" demo_world
             stock_rows stock_world]
  from t[THEN conjunct2, THEN conjunct1]
  have c1: "map row_id (fst (ensure_request_id_and_defaults demo_world
                      [[(''material'', JStr ''gi'')], [(''id'', JStr ''a'')]]))
     = [JStr ''u'', JStr ''a'']"
    by (simp only: e)
  have c2: "list_all is_identifier
     (map row_id (fst (ensure_request_id_and_defaults demo_world
                         [[(''material'', JStr ''gi'')], [(''id'', JStr ''a'')]]))) \<and>
   distinct (map row_id (fst (ensure_request_id_and_defaults demo_world
                                [[(''material'', JStr ''gi'')], [(''id'', JStr ''a'')]])))"
    by (rule t[THEN conjunct2, THEN conjunct2, THEN conjunct1, THEN mp])
       (intro conjI h0 u0 h1 h2)
  have c3:
    "list_all is_identifier (map row_id (fst (ensure_stock_id_and_defaults stock_world stock_rows))) \<and>
     distinct (map row_id (fst (ensure_stock_id_and_defaults stock_world stock_rows)))"
    by (rule t[THEN conjunct2, THEN conjunct2, THEN conjunct2, THEN conjunct2, THEN conjunct2,
               THEN conjunct2, THEN conjunct2, THEN conjunct1, THEN mp])
       (intro conjI s0 u1 h3 h4)
  from h0 u0 h1 h2 c1 c2[THEN conjunct1] c2[THEN conjunct2] s0 u1 h3 h4
       c3[THEN conjunct1] c3[THEN conjunct2]
  show ?thesis by (intro conjI)
qed

text \<open>
  \<^verbatim>\<open>persist_requests\<close> does replace a \<^verbatim>\<open>null\<close> id when it saves the record.
\<close>

lemma persist_replaces_null_id:
  "fst (request_item demo_world (JDict [(''id'', JNull), (''material'', JStr ''gi'')])) = ''u''"
  by code_simp

lemma ensure_rows_flag:
  assumes "\<And>w r r' c w1. f w r = (r', c, w1) \<Longrightarrow> c = P r"
    and "ensure_rows f w rows = (rows', c, w')"
  shows "c = (\<exists>r \<in> set rows. P r)"
  using assms(2)
proof (induction rows arbitrary: w rows' c w')
  case Nil then show ?case by simp
next
  case (Cons r rs)
  obtain r1 c1 w1 where f: "f w r = (r1, c1, w1)" by (cases "f w r") auto
  obtain rs' c' w2 where e: "ensure_rows f w1 rs = (rs', c', w2)"
    by (cases "ensure_rows f w1 rs") auto
  from Cons.prems f e have "c = (c1 \<or> c')" by auto
  with assms(1)[OF f] Cons.IH[OF e] show ?case by simp
qed

lemma ensure_stock_row_flag:
  assumes "ensure_stock_row w r = (r', c, w1)"
  shows "c = (map_of r ''id'' = None \<or> stock_flag r)" and "files w1 = files w"
proof -
  obtain r1 c1 w0 where e: "ensure_id w r = (r1, c1, w0)" by (cases "ensure_id w r") auto
  from ensure_stock_row_stages[OF e] assms
  have c: "c = (c1 \<or> stock_flag r1)" and w: "w1 = w0" by simp_all
  have m: "map_of r1 ''quantity'' = map_of r ''quantity''" and c1: "c1 = (map_of r ''id'' = None)"
    and f: "files w0 = files w"
    using ensure_id_step[OF e] by (auto split: option.splits)
  show "c = (map_of r ''id'' = None \<or> stock_flag r)" by (simp add: c c1 stock_flag_def m)
  show "files w1 = files w" by (simp add: w f)
qed

text \<open>
  When the stock normalizer writes the file: only if some row lacked an id, lacked a
  quantity, or had a quantity that \<^verbatim>\<open>int\<close> rejects.
\<close>

lemma ensure_stock_saves_iff:
  "files (snd (ensure_stock_id_and_defaults w rows)) =
     (if \<exists>r \<in> set rows. map_of r ''id'' = None \<or> stock_flag r
      then (files w)(stock_file \<mapsto>
              Json (JList (map JDict (fst (ensure_stock_id_and_defaults w rows)))))
      else files w)"
proof -
  obtain rows' c w' where e: "ensure_rows ensure_stock_row w rows = (rows', c, w')"
    by (cases "ensure_rows ensure_stock_row w rows") auto
  have c: "c = (\<exists>r \<in> set rows. map_of r ''id'' = None \<or> stock_flag r)"
    by (rule ensure_rows_flag[OF _ e]) (rule ensure_stock_row_flag(1))
  have f: "files w' = files w"
    by (rule ensure_rows_files[OF _ e]) (rule ensure_stock_row_flag(2))
  show ?thesis
  proof (cases c)
    case True
    with c f show ?thesis
      by (simp add: ensure_stock_id_and_defaults_def e save_json_def del: bex_simps)
  next
    case False
    with c f show ?thesis
      by (simp add: ensure_stock_id_and_defaults_def e del: bex_simps)
  qed
qed

text \<open>
  C8. The stock file holds one row with the quantity \<^verbatim>\<open>"5"\<close> and the project \<^verbatim>\<open>" moe "\<close>.
  The normalizer returns the row with the quantity 5 and the project \<^verbatim>\<open>MOE\<close>, so the
  record was changed, and leaves the stock file as it was: \<^verbatim>\<open>changed\<close> is not set when
  \<^verbatim>\<open>int\<close> succeeds nor when the project label is rewritten.
\<close>

theorem ensure_stock_changed_not_saved:
  "fst (ensure_stock_id_and_defaults stock_world stock_rows) =
     [[(''id'', JStr ''s1''), (''school_id'', JStr ''1565''), (''project'', JStr ''MOE''),
       (''type'', JStr ''A''), (''size'', JStr ''C1''), (''quantity'', JInt 5)]] \<and>
   fst (ensure_stock_id_and_defaults stock_world stock_rows) \<noteq> stock_rows \<and>
   files (snd (ensure_stock_id_and_defaults stock_world stock_rows)) stock_file =
     Some (Json (JList (map JDict stock_rows)))"
proof -
  have p: "upper (strip '' moe '') = ''MOE''"
    by code_simp
  have q: "parse_int ''5'' = Some 5"
    by (simp add: parse_int_def int_space_def int_max_str_digits_def digit_of_def)
  have e: "ensure_id stock_world
      [(''id'', JStr ''s1''), (''school_id'', JStr ''1565''), (''project'', JStr '' moe ''),
       (''type'', JStr ''A''), (''size'', JStr ''C1''), (''quantity'', JStr ''5'')] =
     ([(''id'', JStr ''s1''), (''school_id'', JStr ''1565''), (''project'', JStr '' moe ''),
       (''type'', JStr ''A''), (''size'', JStr ''C1''), (''quantity'', JStr ''5'')], False, stock_world)"
    by (simp add: ensure_id_def)
  have r: "ensure_stock_row stock_world
      [(''id'', JStr ''s1''), (''school_id'', JStr ''1565''), (''project'', JStr '' moe ''),
       (''type'', JStr ''A''), (''size'', JStr ''C1''), (''quantity'', JStr ''5'')] =
     ([(''id'', JStr ''s1''), (''school_id'', JStr ''1565''), (''project'', JStr ''MOE''),
       (''type'', JStr ''A''), (''size'', JStr ''C1''), (''quantity'', JInt 5)], False, stock_world)"
    by (simp add: ensure_stock_row_stages[OF e] stock_qty_def stock_flag_def
                  stock_project_def p q)
  have "ensure_stock_id_and_defaults stock_world stock_rows =
     ([[(''id'', JStr ''s1''), (''school_id'', JStr ''1565''), (''project'', JStr ''MOE''),
       (''type'', JStr ''A''), (''size'', JStr ''C1''), (''quantity'', JInt 5)]], stock_world)"
    by (simp add: ensure_stock_id_and_defaults_def stock_rows_def r)
  then show ?thesis by (simp add: stock_world_def stock_rows_def)
qed

subsection \<open>Sync engine\<close>

lemma sync_table_step_skips:
  assumes "\<not> force" and "remote (sw st) table \<noteq> []" and "\<not> rfails (sw st) Select table"
    and "files (sw st) filename \<noteq> None"
  shows "\<exists>st'. sync_table force replace st (table, filename) = Inr st' \<and>
           events (sw st') = events (sw st) @ [Skipped table] \<and>
           total_skipped st' = total_skipped st + 1 \<and>
           total_synced st' = total_synced st \<and> total_errors st' = total_errors st \<and>
           remote (sw st') = remote (sw st) \<and> files (sw st') = files (sw st) \<and>
           rfails (sw st') = rfails (sw st) \<and> configured (sw st') = configured (sw st)"
proof -
  from assms(2) have l: "length (take (Suc 0) (remote (sw st) table)) > 0"
    by (cases "remote (sw st) table") auto
  from assms(4) obtain content where c: "files (sw st) filename = Some content" by auto
  show ?thesis
    using assms(1,3) l c
    by (simp add: sync_table_def sync_check_def remote_select_def notify_def)
qed

text \<open>
  C6. One table of a push pass, with force = false, a local file that exists (so that the
  check is run), an existence check that succeeds and a remote table that holds at least one
  row: the table is reported Skipped and counted as skipped, and the pass goes on to the next
  table with every remote table and every local file as they were.
\<close>

theorem sync_table_skips_existing:
  assumes "\<not> force" and "remote (sw st) table \<noteq> []" and "\<not> rfails (sw st) Select table"
    and "files (sw st) filename \<noteq> None"
  shows "\<exists>st'. sync_table force replace st (table, filename) = Inr st' \<and>
           events (sw st') = events (sw st) @ [Skipped table] \<and>
           total_skipped st' = total_skipped st + 1 \<and>
           total_synced st' = total_synced st \<and> total_errors st' = total_errors st \<and>
           remote (sw st') = remote (sw st) \<and> files (sw st') = files (sw st)"
  using sync_table_step_skips[OF assms, of replace] by blast

theorem sync_table_skips_existing_witness:
  "\<not> False \<and> remote (sw skip_state) ''schools'' \<noteq> [] \<and>
   \<not> rfails (sw skip_state) Select ''schools'' \<and>
   files (sw skip_state) ''schools.json'' \<noteq> None \<and>
   (\<exists>st'. sync_table False True skip_state (''schools'', ''schools.json'') = Inr st' \<and>
          events (sw st') = [Skipped ''schools''] \<and> total_skipped st' = 1 \<and>
          remote (sw st') = remote (sw skip_state) \<and> files (sw st') = files (sw skip_state))"
proof -
  have h1: "\<not> False" by simp
  have h2: "remote (sw skip_state) ''schools'' \<noteq> []"
    and h3: "\<not> rfails (sw skip_state) Select ''schools''"
    and h4: "files (sw skip_state) ''schools.json'' \<noteq> None"
    and e: "events (sw skip_state) = []" and t: "total_skipped skip_state = 0"
    by (simp_all add: skip_state_def replace_world_def demo_world_def)
  from sync_table_skips_existing[OF h1 h2 h3 h4, of True] e t h2 h3 h4
  show ?thesis by auto
qed

lemma clear_events_notify:
  "clear_events (notify e w) = clear_events w @ (if is_clear e then [e] else [])"
  by (simp add: clear_events_def notify_def)

lemma clear_events_upsert:
  "remote_upsert t rows key w = Inr w' \<Longrightarrow> clear_events w' = clear_events w"
  by (auto simp: remote_upsert_def clear_events_def split: if_splits)

lemma sync_check_clear:
  "clear_events (sw (snd (sync_check force replace table st))) = clear_events (sw st)"
  by (simp add: sync_check_def clear_events_notify Let_def split: sum.splits)

lemma sync_mirror_clear: "clear_events (sync_mirror shaped w) = clear_events w"
  by (auto simp: sync_mirror_def clear_events_notify Let_def split: sum.splits
           dest: clear_events_upsert)

lemma remove_local_clear: "clear_events (remove_local filename w) = clear_events w"
  by (simp add: remove_local_def clear_events_notify) (simp add: clear_events_def)

lemma sync_push_clear:
  "clear_events (sw (sync_push False table filename shaped st)) = clear_events (sw st)"
  by (auto simp: sync_push_def clear_events_notify sync_mirror_clear remove_local_clear Let_def
           split: sum.splits option.splits dest: clear_events_upsert)

lemma sync_table_clear:
  "clear_events (sw (sync_state_of (sync_table force False st tf))) = clear_events (sw st)"
proof (cases "files (sw st) (snd tf)")
  case None
  then show ?thesis by (simp add: sync_table_def sync_state_of_def clear_events_notify)
next
  case (Some content)
  obtain skip st1 where c: "sync_check force False (fst tf) st = (skip, st1)"
    by (cases "sync_check force False (fst tf) st") auto
  from sync_check_clear[of force False "fst tf" st] c
  have s: "clear_events (sw st1) = clear_events (sw st)" by simp
  show ?thesis
    using Some c s
    by (cases content; cases skip)
       (auto simp: sync_table_def sync_state_of_def clear_events_notify sync_push_clear Let_def
             split: jval.splits)
qed

lemma sync_tables_clear:
  "clear_events (sw (sync_state_of (sync_tables force False st tfs))) = clear_events (sw st)"
proof (induction tfs arbitrary: st)
  case Nil
  then show ?case by (simp add: sync_state_of_def)
next
  case (Cons tf tfs)
  show ?case
  proof (cases "sync_table force False st tf")
    case (Inl x)
    with sync_table_clear[of force st tf] show ?thesis by (simp add: sync_state_of_def)
  next
    case (Inr st')
    with sync_table_clear[of force st tf] Cons.IH[of st'] show ?thesis
      by (simp add: sync_state_of_def)
  qed
qed

text \<open>
  The function by itself: a pass called with replace = false adds no report of a remote
  clear, run or attempted, whatever force is and however the pass ends.
\<close>

lemma sync_clear_needs_replace:
  "clear_events (sync_world (sync_local_to_supabase force False w)) = clear_events w"
proof (cases "configured w")
  case False
  then show ?thesis
    by (simp add: sync_local_to_supabase_def sync_world_def clear_events_notify)
next
  case True
  let ?st = "\<lparr>sw = w, first_time_sync = None, total_synced = 0, total_skipped = 0,
                  total_errors = 0\<rparr>"
  from sync_tables_clear[of force ?st tables] True show ?thesis
    by (auto simp: sync_local_to_supabase_def sync_world_def sync_state_of_def
                   clear_events_notify split: sum.splits)
qed

text \<open>The page passes replace = true only together with force = true.\<close>

lemma data_sync_replace_needs_force:
  "data_sync_flags force_box replace_box b = (force, replace) \<Longrightarrow> replace \<Longrightarrow> force"
  by (cases b) (auto simp: data_sync_flags_def split: if_splits)

text \<open>
  C7. Every call of \<^verbatim>\<open>sync_local_to_supabase\<close> is a click on one of the three buttons of
  the Data Sync page. For every such click that passes force = false or replace = false,
  the pass adds no report of a remote clear, run or attempted, however it ends: no remote
  table is cleared.
\<close>

theorem clear_only_with_force_and_replace:
  assumes "data_sync_flags force_box replace_box b = (force, replace)"
    and "\<not> force \<or> \<not> replace"
  shows "data_sync_click force_box replace_box b w = sync_local_to_supabase force replace w \<and>
         clear_events (sync_world (data_sync_click force_box replace_box b w)) = clear_events w"
proof -
  have c: "data_sync_click force_box replace_box b w = sync_local_to_supabase force replace w"
    using assms(1) by (simp add: data_sync_click_def)
  from assms data_sync_replace_needs_force[OF assms(1)] have "\<not> replace" by auto
  with c sync_clear_needs_replace[of force w] show ?thesis by simp
qed

theorem clear_only_with_force_and_replace_witness:
  "data_sync_flags True False SyncButton = (True, False) \<and>
   data_sync_click True False SyncButton blind_world
     = sync_local_to_supabase True False blind_world \<and>
   clear_events (sync_world (data_sync_click True False SyncButton blind_world))
     = clear_events blind_world"
proof -
  have f: "data_sync_flags True False SyncButton = (True, False)"
    by (simp add: data_sync_flags_def)
  have g: "\<not> True \<or> \<not> False" by simp
  note t = clear_only_with_force_and_replace[OF f g, of blind_world]
  from f t[THEN conjunct1] t[THEN conjunct2] show ?thesis by (intro conjI)
qed

text \<open>
  The clear itself is guarded by replace alone. Called with force = false and
  replace = true, which no button does, the function runs the clear on a table whose remote
  is empty and on a table whose existence check raised; the button Replace Remote With Local
  runs it with both flags set.
\<close>

lemma sync_clear_guarded_by_replace_alone:
  "Cleared ''schools'' \<in> set (events (sync_world (sync_local_to_supabase False True replace_world))) \<and>
   Cleared ''schools'' \<in> set (events (sync_world (sync_local_to_supabase False True blind_world))) \<and>
   remote blind_world ''schools'' = [[(''id'', JStr ''9''), (''nome'', JStr ''Old'')]] \<and>
   remote (sync_world (sync_local_to_supabase False True blind_world)) ''schools''
     = [[(''id'', JStr ''1'')]] \<and>
   Cleared ''schools''
     \<in> set (events (sync_world (data_sync_click False False ReplaceRemoteWithLocal replace_world)))"
  by code_simp

text \<open>
  The only exception that leaves a table step is the one of \<^verbatim>\<open>json.load\<close>: every remote
  failure and the unbound \<^verbatim>\<open>first_time_sync\<close> are caught inside the step.
\<close>

lemma sync_table_raises_only_on_unparsable:
  assumes "sync_table force replace st tf = Inl x"
  shows "files (sw st) (snd tf) = Some Unparsable \<and> fst x = JSONDecodeError"
proof (cases "files (sw st) (snd tf)")
  case None
  with assms show ?thesis by (simp add: sync_table_def)
next
  case (Some content)
  obtain skip st1 where c: "sync_check force replace (fst tf) st = (skip, st1)"
    by (cases "sync_check force replace (fst tf) st") auto
  from assms Some c show ?thesis
    by (cases content; cases skip) (auto simp: sync_table_def Let_def split: jval.splits)
qed

text \<open>
  C5. All five files exist and \<^verbatim>\<open>schools.json\<close> does not parse. The pass syncs users, then
  \<^verbatim>\<open>json.load\<close> raises outside every \<^verbatim>\<open>try\<close>: the call ends with that exception, and
  materials, requests and stock are never processed (no report, no summary, the request in
  the local file is not pushed).
\<close>

theorem sync_aborts_on_unparsable_file:
  "isl (sync_local_to_supabase False False broken_world) \<and>
   fst (projl (sync_local_to_supabase False False broken_world)) = JSONDecodeError \<and>
   events (sync_world (sync_local_to_supabase False False broken_world))
     = [Synced ''users'' 1, DeletedLocal ''users.json'', Mirrored 1] \<and>
   remote (sync_world (sync_local_to_supabase False False broken_world)) ''requests'' = [] \<and>
   files (sync_world (sync_local_to_supabase False False broken_world)) ''requests.json''
     = Some (Json (JList [JDict [(''id'', JStr ''k1'')]]))"
  by code_simp

subsection \<open>Pull after push\<close>

lemma upsert_row_set: "set (upsert_row key r st) \<subseteq> insert r (set st)"
  by (induction st) auto

lemma upsert_rows_set: "set (upsert_rows key rows st) \<subseteq> set rows \<union> set st"
  unfolding upsert_rows_def
proof (induction rows arbitrary: st)
  case Nil then show ?case by simp
next
  case (Cons r rs)
  from Cons.IH[of "upsert_row key r st"] upsert_row_set[of key r st] show ?case by auto
qed

lemma shape_row_keys:
  "shape_row table cols row = Some p \<Longrightarrow> table \<noteq> ''coaches'' \<Longrightarrow> fst ` set p \<subseteq> set cols \<inter> fst ` set row"
proof -
  assume a: "shape_row table cols row = Some p" and t: "table \<noteq> ''coaches''"
  have 1: "fst ` set (filter (\<lambda>kv. fst kv \<in> set cols) row) \<subseteq> set cols \<inter> fst ` set row" by auto
  have 2: "\<And>r. fst ` set (coerce_quantity r) \<subseteq> fst ` set r"
  proof -
    fix r :: row
    have "\<And>k v. fst ` set (dict_set k v r) = insert k (fst ` set r)"
      by (induction r) auto
    moreover have "\<And>q. map_of r ''quantity'' = Some q \<Longrightarrow> ''quantity'' \<in> fst ` set r"
      by (metis domI dom_map_of_conv_image_fst)
    ultimately show "fst ` set (coerce_quantity r) \<subseteq> fst ` set r"
      by (auto simp: coerce_quantity_def split: option.splits)
  qed
  from a t 1 2[of "filter (\<lambda>kv. fst kv \<in> set cols) row"] show ?thesis
    by (auto simp: shape_row_def Let_def split: if_splits)
qed

lemma pull_shape_fields:
  "map fst (pull_shape cols p) = cols \<and>
   (\<forall>k \<in> set cols. map_of (pull_shape cols p) k = Some (dict_get p k JNull)) \<and>
   (set cols = fst ` set p \<longrightarrow> map_of (pull_shape cols p) = map_of p)"
proof -
  have 1: "map fst (pull_shape cols p) = cols" by (simp add: pull_shape_def comp_def)
  have 2: "\<And>k. map_of (pull_shape cols p) k = (if k \<in> set cols then Some (dict_get p k JNull) else None)"
    by (induction cols) (auto simp: pull_shape_def)
  have 3: "set cols = fst ` set p \<longrightarrow> map_of (pull_shape cols p) = map_of p"
  proof
    assume s: "set cols = fst ` set p"
    show "map_of (pull_shape cols p) = map_of p"
    proof
      fix k
      show "map_of (pull_shape cols p) k = map_of p k"
      proof (cases "k \<in> set cols")
        case True
        with s obtain v where "map_of p k = Some v"
          by (metis domD dom_map_of_conv_image_fst)
        with True show ?thesis by (simp add: 2 dict_get_def)
      next
        case False
        with s have "map_of p k = None" by (simp add: map_of_eq_None_iff)
        with False show ?thesis by (simp add: 2)
      qed
    qed
  qed
  from 1 2 3 show ?thesis by simp
qed


lemma shape_rows_mem:
  "p \<in> set (shape_rows table cols data) \<Longrightarrow>
     \<exists>row. JDict row \<in> set data \<and> shape_row table cols row = Some p"
  by (induction data) (auto split: jval.splits option.splits)

lemma tables_allowed:
  "(table, filename) \<in> set tables \<Longrightarrow>
     table \<noteq> ''coaches'' \<and> (\<exists>cols. allowed_fields table = Some cols)"
  by (auto simp: tables_def allowed_fields_def)

lemma sync_clear_frame:
  "rfails (sync_clear t w) = rfails w \<and> files (sync_clear t w) = files w \<and>
   (remote w t = [] \<longrightarrow> remote (sync_clear t w) t = [])"
  by (auto simp: sync_clear_def remote_delete_neq_def notify_def split: option.splits)

lemma sync_mirror_frame:
  "rfails (sync_mirror shaped w) = rfails w \<and>
   (t \<noteq> ''coaches'' \<longrightarrow> remote (sync_mirror shaped w) t = remote w t)"
  by (auto simp: sync_mirror_def remote_upsert_def notify_def Let_def)

lemma remove_local_frame:
  "rfails (remove_local f w) = rfails w \<and> remote (remove_local f w) = remote w"
  by (simp add: remove_local_def notify_def)

lemma sync_push_remote:
  assumes "\<not> rfails (sw st) Upsert table" and "first_time_sync st = Some b"
    and "table \<noteq> ''coaches''"
  shows "\<exists>kept. set kept \<subseteq> set (remote (sw st) table) \<and>
           remote (sw (sync_push replace table filename shaped st)) table
             = upsert_rows (conflict_targets table) shaped kept \<and>
           rfails (sw (sync_push replace table filename shaped st)) = rfails (sw st)"
proof -
  define w0 where "w0 = (if replace then sync_clear table (sw st) else sw st)"
  have w0: "rfails w0 = rfails (sw st)" "set (remote w0 table) \<subseteq> set (remote (sw st) table)"
    by (auto simp: w0_def sync_clear_def remote_delete_neq_def notify_def split: option.splits)
  define w1 where
    "w1 = w0\<lparr>remote := (remote w0)
              (table := upsert_rows (conflict_targets table) shaped (remote w0 table))\<rparr>"
  have u: "remote_upsert table shaped (conflict_targets table) w0 = Inr w1"
    using assms(1) w0 by (simp add: remote_upsert_def w1_def)
  define w3 where "w3 = (if b then remove_local filename (notify (Synced table (length shaped)) w1)
                         else notify (Synced table (length shaped)) w1)"
  have w3: "rfails w3 = rfails (sw st)"
    "remote w3 table = upsert_rows (conflict_targets table) shaped (remote w0 table)"
    using w0 remove_local_frame[of filename "notify (Synced table (length shaped)) w1"]
    by (auto simp: w3_def w1_def notify_def)
  have res: "sw (sync_push replace table filename shaped st)
               = (if table = ''users'' then sync_mirror shaped w3 else w3)"
    using u assms(2) by (simp add: sync_push_def w0_def[symmetric] w3_def Let_def)
  have "remote (sw (sync_push replace table filename shaped st)) table
             = upsert_rows (conflict_targets table) shaped (remote w0 table) \<and>
           rfails (sw (sync_push replace table filename shaped st)) = rfails (sw st)"
    using w3 assms(3) sync_mirror_frame[of shaped w3 table] by (auto simp: res)
  with w0(2) show ?thesis by blast
qed

text \<open>
  C9 (as amended). A table of the sync pass whose local file is a list, whose remote is
  reachable and which is not skipped (force is set, or the remote table is empty) is pushed,
  and a pull of that table then writes one record for each remote row (up to the page bound).
  Every record written is the pull projection of a pushed record or of a row the remote
  already had. A pushed record has only allowed fields; its pull projection has exactly the
  allowed fields, each with the pushed value, or null where the pushed record did not have
  the field. So a record comes back as pushed only if it was pushed with every allowed field.
\<close>

theorem pull_after_push_fields:
  assumes "(table, filename) \<in> set tables"
    and "files (sw st) filename = Some (Json (JList data))"
    and "\<not> rfails (sw st) Select table" and "\<not> rfails (sw st) Upsert table"
    and "force \<or> remote (sw st) table = []"
  shows "\<exists>st' kept pulled.
           sync_table force replace st (table, filename) = Inr st' \<and>
           set kept \<subseteq> set (remote (sw st) table) \<and>
           remote (sw st') table
             = upsert_rows (conflict_targets table) (shape_data table data) kept \<and>
           files (fst (pull_table (sw st', n, m) (table, filename))) filename
             = Some (Json (JList (map JDict pulled))) \<and>
           pulled = map (pull_shape (pull_cols table)) (take 100001 (remote (sw st') table)) \<and>
           (\<forall>q \<in> set pulled.
              \<exists>p \<in> set (shape_data table data) \<union> set (remote (sw st) table).
                q = pull_shape (pull_cols table) p) \<and>
           (\<forall>p \<in> set (shape_data table data).
              fst ` set p \<subseteq> set (pull_cols table) \<and>
              map fst (pull_shape (pull_cols table) p) = pull_cols table \<and>
              (\<forall>k \<in> set (pull_cols table).
                 map_of (pull_shape (pull_cols table) p) k = Some (dict_get p k JNull)) \<and>
              (set (pull_cols table) = fst ` set p \<longrightarrow>
                 map_of (pull_shape (pull_cols table) p) = map_of p))"
proof -
  from tables_allowed[OF assms(1)] obtain cols where
    nc: "table \<noteq> ''coaches''" and cols: "allowed_fields table = Some cols" by auto
  have pc: "pull_cols table = cols" by (simp add: pull_cols_def cols)
  have sd: "shape_data table data = shape_rows table cols data" by (simp add: shape_data_def cols)
  define st1 where
    "st1 = st\<lparr>first_time_sync :=
               Some (length (take (Suc 0) (remote (sw st) table)) = 0 \<and> \<not> force \<and> \<not> replace)\<rparr>"
  have chk: "sync_check force replace table st = (False, st1)"
    using assms(3,5) by (auto simp: sync_check_def remote_select_def st1_def)
  define st' where "st' = sync_push replace table filename (shape_data table data) st1"
  have run: "sync_table force replace st (table, filename) = Inr st'"
    using assms(2) chk by (simp add: sync_table_def st'_def)
  have "\<not> rfails (sw st1) Upsert table"
    "first_time_sync st1
       = Some (length (take (Suc 0) (remote (sw st) table)) = 0 \<and> \<not> force \<and> \<not> replace)"
    using assms(4) by (simp_all add: st1_def)
  from sync_push_remote[OF this nc, of replace filename "shape_data table data"]
  obtain kept where kept: "set kept \<subseteq> set (remote (sw st) table)"
    and rem: "remote (sw st') table
                = upsert_rows (conflict_targets table) (shape_data table data) kept"
    and rf: "rfails (sw st') = rfails (sw st)"
    by (auto simp: st'_def st1_def)
  define pulled where
    "pulled = map (pull_shape (pull_cols table)) (take 100001 (remote (sw st') table))"
  have pull: "files (fst (pull_table (sw st', n, m) (table, filename))) filename
             = Some (Json (JList (map JDict pulled)))"
    using assms(3) rf
    by (simp add: pull_table_def remote_select_def notify_def save_json_def pulled_def)
  have sub: "set (remote (sw st') table)
               \<subseteq> set (shape_data table data) \<union> set (remote (sw st) table)"
    using upsert_rows_set[of "conflict_targets table" "shape_data table data" kept] rem kept
    by auto
  have img: "\<forall>q \<in> set pulled.
              \<exists>p \<in> set (shape_data table data) \<union> set (remote (sw st) table).
                q = pull_shape (pull_cols table) p"
  proof
    fix q assume "q \<in> set pulled"
    then obtain p where p: "p \<in> set (take 100001 (remote (sw st') table))"
      and q: "q = pull_shape (pull_cols table) p"
      by (auto simp: pulled_def)
    from p have "p \<in> set (remote (sw st') table)" by (rule in_set_takeD)
    with sub have "p \<in> set (shape_data table data) \<union> set (remote (sw st) table)" by blast
    with q show "\<exists>p \<in> set (shape_data table data) \<union> set (remote (sw st) table).
                q = pull_shape (pull_cols table) p" by blast
  qed
  have rec: "\<forall>p \<in> set (shape_data table data).
              fst ` set p \<subseteq> set (pull_cols table) \<and>
              map fst (pull_shape (pull_cols table) p) = pull_cols table \<and>
              (\<forall>k \<in> set (pull_cols table).
                 map_of (pull_shape (pull_cols table) p) k = Some (dict_get p k JNull)) \<and>
              (set (pull_cols table) = fst ` set p \<longrightarrow>
                 map_of (pull_shape (pull_cols table) p) = map_of p)"
  proof
    fix p assume "p \<in> set (shape_data table data)"
    then obtain row where "shape_row table cols row = Some p"
      using shape_rows_mem[of p table cols data] by (auto simp: sd)
    from shape_row_keys[OF this nc] have "fst ` set p \<subseteq> set (pull_cols table)" by (simp add: pc)
    with pull_shape_fields[of "pull_cols table" p]
    show "fst ` set p \<subseteq> set (pull_cols table) \<and>
              map fst (pull_shape (pull_cols table) p) = pull_cols table \<and>
              (\<forall>k \<in> set (pull_cols table).
                 map_of (pull_shape (pull_cols table) p) k = Some (dict_get p k JNull)) \<and>
              (set (pull_cols table) = fst ` set p \<longrightarrow>
                 map_of (pull_shape (pull_cols table) p) = map_of p)"
      by blast
  qed
  note pd = pulled_def
  from run kept rem pull pd img rec
  have "sync_table force replace st (table, filename) = Inr st' \<and>
           set kept \<subseteq> set (remote (sw st) table) \<and>
           remote (sw st') table
             = upsert_rows (conflict_targets table) (shape_data table data) kept \<and>
           files (fst (pull_table (sw st', n, m) (table, filename))) filename
             = Some (Json (JList (map JDict pulled))) \<and>
           pulled = map (pull_shape (pull_cols table)) (take 100001 (remote (sw st') table)) \<and>
           (\<forall>q \<in> set pulled.
              \<exists>p \<in> set (shape_data table data) \<union> set (remote (sw st) table).
                q = pull_shape (pull_cols table) p) \<and>
           (\<forall>p \<in> set (shape_data table data).
              fst ` set p \<subseteq> set (pull_cols table) \<and>
              map fst (pull_shape (pull_cols table) p) = pull_cols table \<and>
              (\<forall>k \<in> set (pull_cols table).
                 map_of (pull_shape (pull_cols table) p) k = Some (dict_get p k JNull)) \<and>
              (set (pull_cols table) = fst ` set p \<longrightarrow>
                 map_of (pull_shape (pull_cols table) p) = map_of p))"
    by (intro conjI)
  then show ?thesis
    by - (rule exI[where x = st'], rule exI[where x = kept], rule exI[where x = pulled],
          assumption)
qed

text \<open>
  The school pushed as id and nome comes back from the pull with city and coaches as well,
  both null: the record written is not the record pushed.
\<close>

theorem pull_after_push_counterexample:
  "remote (sync_world (sync_local_to_supabase False False roundtrip_world)) ''schools''
     = [[(''id'', JStr ''1''), (''nome'', JStr ''Gracie'')]] \<and>
   files (pull_supabase_to_local (sync_world (sync_local_to_supabase False False roundtrip_world)))
       ''schools.json''
     = Some (Json (JList [JDict [(''id'', JStr ''1''), (''nome'', JStr ''Gracie''),
                                 (''city'', JNull), (''coaches'', JNull)]])) \<and>
   map_of [(''id'', JStr ''1''), (''nome'', JStr ''Gracie''), (''city'', JNull), (''coaches'', JNull)]
       ''city'' = Some JNull \<and>
   map_of [(''id'', JStr ''1''), (''nome'', JStr ''Gracie'')] ''city'' = None"
proof -
  define w1 where "w1 = sync_world (sync_local_to_supabase False False roundtrip_world)"
  have "configured w1 \<and> \<not> rfails w1 Select ''users'' \<and> \<not> rfails w1 Select ''schools'' \<and>
    \<not> rfails w1 Select ''materials'' \<and> \<not> rfails w1 Select ''requests'' \<and>
    \<not> rfails w1 Select ''stock_kimonos'' \<and>
    remote w1 ''schools'' = [[(''id'', JStr ''1''), (''nome'', JStr ''Gracie'')]]"
    unfolding w1_def by code_simp
  then have c: "configured w1"
    and f: "\<not> rfails w1 Select ''users''" "\<not> rfails w1 Select ''schools''"
      "\<not> rfails w1 Select ''materials''" "\<not> rfails w1 Select ''requests''"
      "\<not> rfails w1 Select ''stock_kimonos''"
    and r: "remote w1 ''schools'' = [[(''id'', JStr ''1''), (''nome'', JStr ''Gracie'')]]"
    by simp_all
  have p: "files (pull_supabase_to_local w1) ''schools.json''
     = Some (Json (JList [JDict [(''id'', JStr ''1''), (''nome'', JStr ''Gracie''),
                                 (''city'', JNull), (''coaches'', JNull)]]))"
    using c f r
    by (simp add: pull_supabase_to_local_def pull_files_def pull_table_def remote_select_def
                  save_json_def notify_def pull_shape_def pull_cols_def allowed_fields_def
                  Let_def dict_get_def users_file_def schools_file_def materials_file_def
                  requests_file_def stock_file_def)
  from r p show ?thesis unfolding w1_def by simp
qed

theorem pull_after_push_fields_witness:
  "(''schools'', ''schools.json'') \<in> set tables \<and>
   files (sw roundtrip_state) ''schools.json''
     = Some (Json (JList [JDict [(''id'', JStr ''1''), (''nome'', JStr ''Gracie''),
                                 (''mascot'', JStr ''owl'')]])) \<and>
   \<not> rfails (sw roundtrip_state) Select ''schools'' \<and>
   \<not> rfails (sw roundtrip_state) Upsert ''schools'' \<and>
   (False \<or> remote (sw roundtrip_state) ''schools'' = []) \<and>
   [(''id'', JStr ''1''), (''nome'', JStr ''Gracie'')]
     \<in> set (shape_data ''schools'' [JDict [(''id'', JStr ''1''), (''nome'', JStr ''Gracie''),
                                            (''mascot'', JStr ''owl'')]]) \<and>
   ''city'' \<in> set (pull_cols ''schools'') \<and>
   map_of (pull_shape (pull_cols ''schools'') [(''id'', JStr ''1''), (''nome'', JStr ''Gracie'')])
       ''city'' = Some JNull \<and>
   (\<exists>st'. sync_table False False roundtrip_state (''schools'', ''schools.json'') = Inr st' \<and>
          files (fst (pull_table (sw st', 0, 0) (''schools'', ''schools.json''))) ''schools.json''
            = Some (Json (JList (map JDict
                (map (pull_shape (pull_cols ''schools''))
                     (take 100001 (remote (sw st') ''schools'')))))))"
proof -
  have h1: "(''schools'', ''schools.json'') \<in> set tables" by (simp add: tables_def)
  have h2: "files (sw roundtrip_state) ''schools.json''
     = Some (Json (JList [JDict [(''id'', JStr ''1''), (''nome'', JStr ''Gracie''),
                                 (''mascot'', JStr ''owl'')]]))"
    and h3: "\<not> rfails (sw roundtrip_state) Select ''schools''"
    and h4: "\<not> rfails (sw roundtrip_state) Upsert ''schools''"
    and h5: "False \<or> remote (sw roundtrip_state) ''schools'' = []"
    by (simp_all add: roundtrip_state_def roundtrip_world_def demo_world_def)
  have m: "[(''id'', JStr ''1''), (''nome'', JStr ''Gracie'')]
     \<in> set (shape_data ''schools'' [JDict [(''id'', JStr ''1''), (''nome'', JStr ''Gracie''),
                                            (''mascot'', JStr ''owl'')]])"
    by (simp add: shape_data_def allowed_fields_def shape_row_def)
  have c: "''city'' \<in> set (pull_cols ''schools'')"
    by (simp add: pull_cols_def allowed_fields_def)
  from pull_after_push_fields[OF h1 h2 h3 h4 h5, of False 0 0] obtain st' kept pulled where
    r: "sync_table False False roundtrip_state (''schools'', ''schools.json'') = Inr st' \<and>
           set kept \<subseteq> set (remote (sw roundtrip_state) ''schools'') \<and>
           remote (sw st') ''schools''
             = upsert_rows (conflict_targets ''schools'')
                 (shape_data ''schools'' [JDict [(''id'', JStr ''1''), (''nome'', JStr ''Gracie''),
                                            (''mascot'', JStr ''owl'')]]) kept \<and>
           files (fst (pull_table (sw st', 0, 0) (''schools'', ''schools.json''))) ''schools.json''
             = Some (Json (JList (map JDict pulled))) \<and>
           pulled = map (pull_shape (pull_cols ''schools'')) (take 100001 (remote (sw st') ''schools'')) \<and>
           (\<forall>q \<in> set pulled.
              \<exists>p \<in> set (shape_data ''schools'' [JDict [(''id'', JStr ''1''), (''nome'', JStr ''Gracie''),
                                            (''mascot'', JStr ''owl'')]])
                     \<union> set (remote (sw roundtrip_state) ''schools'').
                q = pull_shape (pull_cols ''schools'') p) \<and>
           (\<forall>p \<in> set (shape_data ''schools'' [JDict [(''id'', JStr ''1''), (''nome'', JStr ''Gracie''),
                                            (''mascot'', JStr ''owl'')]]).
              fst ` set p \<subseteq> set (pull_cols ''schools'') \<and>
              map fst (pull_shape (pull_cols ''schools'') p) = pull_cols ''schools'' \<and>
              (\<forall>k \<in> set (pull_cols ''schools'').
                 map_of (pull_shape (pull_cols ''schools'') p) k = Some (dict_get p k JNull)) \<and>
              (set (pull_cols ''schools'') = fst ` set p \<longrightarrow>
                 map_of (pull_shape (pull_cols ''schools'') p) = map_of p))"
    by (elim exE)
  from r have run: "sync_table False False roundtrip_state (''schools'', ''schools.json'') = Inr st'"
    and fl: "files (fst (pull_table (sw st', 0, 0) (''schools'', ''schools.json''))) ''schools.json''
             = Some (Json (JList (map JDict pulled)))"
    and pd: "pulled = map (pull_shape (pull_cols ''schools'')) (take 100001 (remote (sw st') ''schools''))"
    and a0: "\<forall>p \<in> set (shape_data ''schools'' [JDict [(''id'', JStr ''1''), (''nome'', JStr ''Gracie''),
                                            (''mascot'', JStr ''owl'')]]).
              fst ` set p \<subseteq> set (pull_cols ''schools'') \<and>
              map fst (pull_shape (pull_cols ''schools'') p) = pull_cols ''schools'' \<and>
              (\<forall>k \<in> set (pull_cols ''schools'').
                 map_of (pull_shape (pull_cols ''schools'') p) k = Some (dict_get p k JNull)) \<and>
              (set (pull_cols ''schools'') = fst ` set p \<longrightarrow>
                 map_of (pull_shape (pull_cols ''schools'') p) = map_of p)"
    by simp_all
  from bspec[OF a0 m]
  have a1: "\<forall>k \<in> set (pull_cols ''schools'').
       map_of (pull_shape (pull_cols ''schools'') [(''id'', JStr ''1''), (''nome'', JStr ''Gracie'')]) k
         = Some (dict_get [(''id'', JStr ''1''), (''nome'', JStr ''Gracie'')] k JNull)"
    by (elim conjE) assumption
  from bspec[OF a1 c] have "map_of (pull_shape (pull_cols ''schools'') [(''id'', JStr ''1''), (''nome'', JStr ''Gracie'')])
       ''city'' = Some (dict_get [(''id'', JStr ''1''), (''nome'', JStr ''Gracie'')] ''city'' JNull)" .
  then have v: "map_of (pull_shape (pull_cols ''schools'') [(''id'', JStr ''1''), (''nome'', JStr ''Gracie'')])
       ''city'' = Some JNull"
    by (simp add: dict_get_def)
  have ex: "\<exists>st'. sync_table False False roundtrip_state (''schools'', ''schools.json'') = Inr st' \<and>
          files (fst (pull_table (sw st', 0, 0) (''schools'', ''schools.json''))) ''schools.json''
            = Some (Json (JList (map JDict
                (map (pull_shape (pull_cols ''schools''))
                     (take 100001 (remote (sw st') ''schools''))))))"
    using run fl unfolding pd by (intro exI[where x = st'] conjI)
  from h1 h2 h3 h4 h5 m c v ex show ?thesis by (intro conjI)
qed

subsection \<open>Manage Requests\<close>







lemma ensure_request_normal:
  "ensure_request_id_and_defaults w x = (rows, w') \<Longrightarrow> list_all request_normal rows"
  using ensure_request_normalized[of x w] by simp



text \<open>Every object among the values that the loop returns has its id, status and requester.\<close>

lemma ensure_values_normal:
  "ensure_values w xs = Inr (ys, c, w') \<Longrightarrow> JDict r \<in> set ys \<Longrightarrow> request_normal r"
proof (induction xs arbitrary: w ys c)
  case Nil
  then show ?case by simp
next
  case (Cons x xs)
  from Cons.prems(1) obtain x' c1 w1 where v: "ensure_request_value w x = Inr (x', c1, w1)"
    by (cases "ensure_request_value w x") auto
  with Cons.prems(1) obtain ys' c' where
    e: "ensure_values w1 xs = Inr (ys', c', w')" and ys: "ys = x' # ys'"
    by (cases "ensure_values w1 xs") auto
  from Cons.prems(2) ys consider "JDict r = x'" | "JDict r \<in> set ys'" by auto
  then show ?case
  proof cases
    case 1
    with v obtain r0 c0 w0 where "x = JDict r0" "ensure_request_row w r0 = (r, c0, w0)"
      by (cases x) (auto simp: ensure_request_value_def split: if_splits prod.splits)
    then show ?thesis using ensure_request_row_defaulted by blast
  next
    case 2
    with Cons.IH[OF e] show ?thesis .
  qed
qed

lemma load_requests_normal:
  assumes "load_requests_data w0 = Inr ((JList (map JDict rows), src, err), w)"
  shows "list_all request_normal rows"
proof -
  from assms obtain w1 v where
    "ensure_request_id_and_defaults_on w1 v = Inr (JList (map JDict rows), w)"
    by (auto simp: load_requests_data_def Let_def split: if_splits sum.splits prod.splits)
  then obtain xs c w' where "ensure_values w1 xs = Inr (map JDict rows, c, w')"
    by (cases v)
       (auto simp: ensure_request_id_and_defaults_on_def py_iter_def Let_def
             split: sum.splits prod.splits)
  from ensure_values_normal[OF this] show ?thesis by (auto simp: list_all_iff)
qed






text \<open>What the page shows is part of what was loaded.\<close>

lemma manage_requests_view_subset:
  "manage_requests_view u sel rows w = Inr visible \<Longrightarrow> set visible \<subseteq> set rows"
  by (auto simp: manage_requests_view_def visible_requests_def school_filter_def
           split: sum.splits if_splits option.splits)




subsection \<open>What a table step leaves alone\<close>

lemma untouched_refl: "untouched t f w w"
  by (simp add: untouched_def)

lemma untouched_trans: "untouched t f w w1 \<Longrightarrow> untouched t f w1 w2 \<Longrightarrow> untouched t f w w2"
  by (auto simp: untouched_def)

lemma untouched_notify: "untouched t f w (notify e w)"
  by (simp add: untouched_def notify_def)

lemma untouched_upsert:
  "remote_upsert t' rows key w = Inr w' \<Longrightarrow> t \<noteq> t' \<Longrightarrow> untouched t f w w'"
  by (auto simp: remote_upsert_def untouched_def split: if_splits)

lemma untouched_clear: "t \<noteq> t' \<Longrightarrow> untouched t f w (sync_clear t' w)"
  by (auto simp: sync_clear_def remote_delete_neq_def untouched_def notify_def
           split: option.splits)

lemma untouched_remove_local: "f \<noteq> f' \<Longrightarrow> untouched t f w (remove_local f' w)"
  by (simp add: remove_local_def untouched_def notify_def)

lemma untouched_mirror: "t \<noteq> ''coaches'' \<Longrightarrow> untouched t f w (sync_mirror shaped w)"
  by (auto simp: sync_mirror_def remote_upsert_def untouched_def notify_def Let_def)

lemma untouched_check:
  "untouched t f (sw st) (sw (snd (sync_check force replace t' st)))"
  by (simp add: sync_check_def remote_select_def untouched_def notify_def Let_def)

lemma untouched_push:
  assumes "t \<noteq> t'" and "f \<noteq> f'" and "t \<noteq> ''coaches''"
  shows "untouched t f (sw st) (sw (sync_push replace t' f' shaped st))"
proof -
  define w0 where "w0 = (if replace then sync_clear t' (sw st) else sw st)"
  have 0: "untouched t f (sw st) w0"
    using assms(1) by (simp add: w0_def untouched_clear untouched_refl)
  show ?thesis
  proof (cases "remote_upsert t' shaped (conflict_targets t') w0")
    case (Inl e)
    then have "sw (sync_push replace t' f' shaped st) = notify (SyncError t') w0"
      by (simp add: sync_push_def w0_def)
    with 0 untouched_notify[of t f w0] show ?thesis by (auto intro: untouched_trans)
  next
    case (Inr w1)
    from untouched_upsert[OF Inr assms(1)] 0 have 1: "untouched t f (sw st) w1"
      by (rule untouched_trans[rotated])
    define w2 where "w2 = notify (Synced t' (length shaped)) w1"
    have 2: "untouched t f (sw st) w2"
      using 1 untouched_notify[of t f w1] by (auto simp: w2_def intro: untouched_trans)
    show ?thesis
    proof (cases "first_time_sync st")
      case None
      with Inr have "sw (sync_push replace t' f' shaped st) = notify (SyncError t') w2"
        by (simp add: sync_push_def w0_def w2_def)
      with 2 untouched_notify[of t f w2] show ?thesis by (auto intro: untouched_trans)
    next
      case (Some fts)
      define w3 where "w3 = (if fts then remove_local f' w2 else w2)"
      have 3: "untouched t f (sw st) w3"
        using 2 untouched_remove_local[OF assms(2), of t w2]
        by (auto simp: w3_def intro: untouched_trans)
      from Inr Some have "sw (sync_push replace t' f' shaped st)
          = (if t' = ''users'' then sync_mirror shaped w3 else w3)"
        by (simp add: sync_push_def w0_def w2_def w3_def Let_def)
      with 3 untouched_mirror[OF assms(3), of f w3] show ?thesis
        by (auto intro: untouched_trans)
    qed
  qed
qed

lemma untouched_table:
  assumes "t \<noteq> t'" and "f \<noteq> f'" and "t \<noteq> ''coaches''"
  shows "untouched t f (sw st) (sw (sync_state_of (sync_table force replace st (t', f'))))"
proof (cases "files (sw st) f'")
  case None
  then show ?thesis
    by (simp add: sync_table_def sync_state_of_def untouched_notify)
next
  case (Some content)
  obtain skip st1 where c: "sync_check force replace t' st = (skip, st1)"
    by (cases "sync_check force replace t' st") auto
  from untouched_check[of t f st force replace t'] c
  have 1: "untouched t f (sw st) (sw st1)" by simp
  have 2: "\<And>shaped. untouched t f (sw st) (sw (sync_push replace t' f' shaped st1))"
    using 1 untouched_push[OF assms, of st1] by (auto intro: untouched_trans)
  have 3: "untouched t f (sw st) (notify (InvalidFormat t') (sw st1))"
    using 1 untouched_notify[of t f "sw st1"] by (auto intro: untouched_trans)
  show ?thesis
    using Some c 1 2 3
    by (cases content; cases skip)
       (auto simp: sync_table_def sync_state_of_def Let_def split: jval.splits)
qed

lemma untouched_tables:
  assumes "\<forall>tf \<in> set tfs. fst tf \<noteq> t \<and> snd tf \<noteq> f" and "t \<noteq> ''coaches''"
  shows "untouched t f (sw st) (sw (sync_state_of (sync_tables force replace st tfs)))"
  using assms(1)
proof (induction tfs arbitrary: st)
  case Nil
  then show ?case by (simp add: sync_state_of_def untouched_refl)
next
  case (Cons tf tfs)
  obtain t' f' where tf: "tf = (t', f')" by (cases tf) auto
  with Cons.prems have ne: "t \<noteq> t'" "f \<noteq> f'" by auto
  from untouched_table[OF ne assms(2), of st force replace]
  have 1: "untouched t f (sw st) (sw (sync_state_of (sync_table force replace st tf)))"
    by (simp add: tf)
  show ?case
  proof (cases "sync_table force replace st tf")
    case (Inl x)
    with 1 show ?thesis by (simp add: sync_state_of_def)
  next
    case (Inr st')
    from Cons.IH[of st'] Cons.prems
    have "untouched t f (sw st') (sw (sync_state_of (sync_tables force replace st' tfs)))"
      by simp
    with 1 Inr show ?thesis by (auto simp: sync_state_of_def intro: untouched_trans)
  qed
qed

lemma sync_tables_append:
  "sync_tables force replace st (xs @ ys) =
     (case sync_tables force replace st xs of
        Inl x \<Rightarrow> Inl x
      | Inr st' \<Rightarrow> sync_tables force replace st' ys)"
  by (induction xs arbitrary: st) (auto split: sum.splits)

lemma tables_split:
  assumes "(t, f) \<in> set tables"
  shows "\<exists>pre post. tables = pre @ (t, f) # post \<and>
           (\<forall>tf \<in> set pre. fst tf \<noteq> t \<and> snd tf \<noteq> f) \<and>
           (\<forall>tf \<in> set post. fst tf \<noteq> t \<and> snd tf \<noteq> f) \<and> t \<noteq> ''coaches''"
proof -
  from assms have
    "(t, f) = (''users'', ''users.json'') \<or> (t, f) = (''schools'', ''schools.json'') \<or>
     (t, f) = (''materials'', ''materials.json'') \<or> (t, f) = (''requests'', ''requests.json'') \<or>
     (t, f) = (''stock_kimonos'', ''stock_kimonos.json'')"
    by (auto simp: tables_def)
  then show ?thesis
  proof (elim disjE)
    assume e: "(t, f) = (''users'', ''users.json'')"
    then have "tables = [] @ (t, f) # [(''schools'', ''schools.json''), (''materials'', ''materials.json''), (''requests'', ''requests.json''), (''stock_kimonos'', ''stock_kimonos.json'')] \<and>
        (\<forall>tf \<in> set []. fst tf \<noteq> t \<and> snd tf \<noteq> f) \<and>
        (\<forall>tf \<in> set [(''schools'', ''schools.json''), (''materials'', ''materials.json''), (''requests'', ''requests.json''), (''stock_kimonos'', ''stock_kimonos.json'')]. fst tf \<noteq> t \<and> snd tf \<noteq> f) \<and> t \<noteq> ''coaches''"
      by (simp add: tables_def)
    then show ?thesis
      by - (rule exI[where x = "[]"], rule exI[where x = "[(''schools'', ''schools.json''), (''materials'', ''materials.json''), (''requests'', ''requests.json''), (''stock_kimonos'', ''stock_kimonos.json'')]"], assumption)
  next
    assume e: "(t, f) = (''schools'', ''schools.json'')"
    then have "tables = [(''users'', ''users.json'')] @ (t, f) # [(''materials'', ''materials.json''), (''requests'', ''requests.json''), (''stock_kimonos'', ''stock_kimonos.json'')] \<and>
        (\<forall>tf \<in> set [(''users'', ''users.json'')]. fst tf \<noteq> t \<and> snd tf \<noteq> f) \<and>
        (\<forall>tf \<in> set [(''materials'', ''materials.json''), (''requests'', ''requests.json''), (''stock_kimonos'', ''stock_kimonos.json'')]. fst tf \<noteq> t \<and> snd tf \<noteq> f) \<and> t \<noteq> ''coaches''"
      by (simp add: tables_def)
    then show ?thesis
      by - (rule exI[where x = "[(''users'', ''users.json'')]"], rule exI[where x = "[(''materials'', ''materials.json''), (''requests'', ''requests.json''), (''stock_kimonos'', ''stock_kimonos.json'')]"], assumption)
  next
    assume e: "(t, f) = (''materials'', ''materials.json'')"
    then have "tables = [(''users'', ''users.json''), (''schools'', ''schools.json'')] @ (t, f) # [(''requests'', ''requests.json''), (''stock_kimonos'', ''stock_kimonos.json'')] \<and>
        (\<forall>tf \<in> set [(''users'', ''users.json''), (''schools'', ''schools.json'')]. fst tf \<noteq> t \<and> snd tf \<noteq> f) \<and>
        (\<forall>tf \<in> set [(''requests'', ''requests.json''), (''stock_kimonos'', ''stock_kimonos.json'')]. fst tf \<noteq> t \<and> snd tf \<noteq> f) \<and> t \<noteq> ''coaches''"
      by (simp add: tables_def)
    then show ?thesis
      by - (rule exI[where x = "[(''users'', ''users.json''), (''schools'', ''schools.json'')]"], rule exI[where x = "[(''requests'', ''requests.json''), (''stock_kimonos'', ''stock_kimonos.json'')]"], assumption)
  next
    assume e: "(t, f) = (''requests'', ''requests.json'')"
    then have "tables = [(''users'', ''users.json''), (''schools'', ''schools.json''), (''materials'', ''materials.json'')] @ (t, f) # [(''stock_kimonos'', ''stock_kimonos.json'')] \<and>
        (\<forall>tf \<in> set [(''users'', ''users.json''), (''schools'', ''schools.json''), (''materials'', ''materials.json'')]. fst tf \<noteq> t \<and> snd tf \<noteq> f) \<and>
        (\<forall>tf \<in> set [(''stock_kimonos'', ''stock_kimonos.json'')]. fst tf \<noteq> t \<and> snd tf \<noteq> f) \<and> t \<noteq> ''coaches''"
      by (simp add: tables_def)
    then show ?thesis
      by - (rule exI[where x = "[(''users'', ''users.json''), (''schools'', ''schools.json''), (''materials'', ''materials.json'')]"], rule exI[where x = "[(''stock_kimonos'', ''stock_kimonos.json'')]"], assumption)
  next
    assume e: "(t, f) = (''stock_kimonos'', ''stock_kimonos.json'')"
    then have "tables = [(''users'', ''users.json''), (''schools'', ''schools.json''), (''materials'', ''materials.json''), (''requests'', ''requests.json'')] @ (t, f) # [] \<and>
        (\<forall>tf \<in> set [(''users'', ''users.json''), (''schools'', ''schools.json''), (''materials'', ''materials.json''), (''requests'', ''requests.json'')]. fst tf \<noteq> t \<and> snd tf \<noteq> f) \<and>
        (\<forall>tf \<in> set []. fst tf \<noteq> t \<and> snd tf \<noteq> f) \<and> t \<noteq> ''coaches''"
      by (simp add: tables_def)
    then show ?thesis
      by - (rule exI[where x = "[(''users'', ''users.json''), (''schools'', ''schools.json''), (''materials'', ''materials.json''), (''requests'', ''requests.json'')]"], rule exI[where x = "[]"], assumption)
  qed
qed

lemma sync_pass_world:
  assumes "configured w"
  shows "untouched t f
           (sw (sync_state_of (sync_tables force replace
                  \<lparr>sw = w, first_time_sync = None, total_synced = 0, total_skipped = 0,
                   total_errors = 0\<rparr> tables)))
           (sync_world (sync_local_to_supabase force replace w)) \<and>
         isl (sync_local_to_supabase force replace w)
           = isl (sync_tables force replace
                  \<lparr>sw = w, first_time_sync = None, total_synced = 0, total_skipped = 0,
                   total_errors = 0\<rparr> tables)"
  using assms
  by (auto simp: sync_local_to_supabase_def sync_world_def sync_state_of_def untouched_refl
                 untouched_notify split: sum.splits)

text \<open>
  The whole pass, seen from a table that is skipped: with force = false, a local file, a
  check that succeeds and a remote row, no step of the pass changes the table's remote rows
  or its local file, and a pass that returns has reported the table Skipped.
\<close>

lemma sync_pass_leaves_skipped_table:
  assumes "configured w" and "(t, f) \<in> set tables" and "remote w t \<noteq> []"
    and "\<not> rfails w Select t" and "files w f \<noteq> None"
  shows "remote (sync_world (sync_local_to_supabase False replace w)) t = remote w t \<and>
         files (sync_world (sync_local_to_supabase False replace w)) f = files w f \<and>
         (\<not> isl (sync_local_to_supabase False replace w) \<longrightarrow>
            Skipped t \<in> set (events (sync_world (sync_local_to_supabase False replace w))))"
proof -
  let ?st0 = "\<lparr>sw = w, first_time_sync = None, total_synced = 0, total_skipped = 0,
                total_errors = 0\<rparr>"
  from tables_split[OF assms(2)] obtain pre post where
    tb: "tables = pre @ (t, f) # post"
    and pre: "\<forall>tf \<in> set pre. fst tf \<noteq> t \<and> snd tf \<noteq> f"
    and post: "\<forall>tf \<in> set post. fst tf \<noteq> t \<and> snd tf \<noteq> f"
    and nc: "t \<noteq> ''coaches''"
    by blast
  let ?all = "sync_tables False replace ?st0 tables"
  have fin: "untouched t f (sw (sync_state_of ?all)) (sync_world (sync_local_to_supabase False replace w))"
    and il: "isl (sync_local_to_supabase False replace w) = isl ?all"
    using sync_pass_world[OF assms(1), of t f False replace] by simp_all
  have u1: "untouched t f w (sw (sync_state_of (sync_tables False replace ?st0 pre)))"
    using untouched_tables[OF pre nc, of ?st0 False replace] by simp
  have "untouched t f w (sw (sync_state_of ?all)) \<and>
        (\<not> isl ?all \<longrightarrow> Skipped t \<in> set (events (sw (sync_state_of ?all))))"
  proof (cases "sync_tables False replace ?st0 pre")
    case (Inl x)
    then have "?all = Inl x" by (simp add: tb sync_tables_append)
    with u1 Inl show ?thesis by simp
  next
    case (Inr st1)
    with u1 have k1: "untouched t f w (sw st1)" by (simp add: sync_state_of_def)
    then have h: "remote (sw st1) t \<noteq> []" "\<not> rfails (sw st1) Select t" "files (sw st1) f \<noteq> None"
      using assms(3,4,5) by (simp_all add: untouched_def)
    have nf: "\<not> False" by simp
    from sync_table_step_skips[OF nf h, of replace] obtain st2 where
      s2: "sync_table False replace st1 (t, f) = Inr st2"
      and e2: "events (sw st2) = events (sw st1) @ [Skipped t]"
      and r2: "remote (sw st2) = remote (sw st1)" and f2: "files (sw st2) = files (sw st1)"
      and rf2: "rfails (sw st2) = rfails (sw st1)" and c2: "configured (sw st2) = configured (sw st1)"
      by blast
    have k2: "untouched t f (sw st1) (sw st2)"
      using e2 r2 f2 rf2 c2 by (simp add: untouched_def)
    have u3: "untouched t f (sw st2) (sw (sync_state_of (sync_tables False replace st2 post)))"
      using untouched_tables[OF post nc, of st2 False replace] by simp
    have all: "?all = sync_tables False replace st2 post"
      using Inr s2 by (simp add: tb sync_tables_append)
    have "Skipped t \<in> set (events (sw (sync_state_of (sync_tables False replace st2 post))))"
      using u3 e2 by (auto simp: untouched_def)
    with k1 k2 u3 all show ?thesis by (auto intro: untouched_trans)
  qed
  with fin il show ?thesis
    by (auto simp: untouched_def)
qed

lemma sync_tables_returns:
  assumes "distinct (map fst tfs)" and "distinct (map snd tfs)"
    and "\<forall>tf \<in> set tfs. fst tf \<noteq> ''coaches'' \<and> files (sw st) (snd tf) \<noteq> Some Unparsable"
  shows "\<not> isl (sync_tables force replace st tfs)"
  using assms
proof (induction tfs arbitrary: st)
  case Nil
  then show ?case by simp
next
  case (Cons tf tfs)
  obtain t f where tf: "tf = (t, f)" by (cases tf) auto
  from Cons.prems(3) have np: "files (sw st) (snd tf) \<noteq> Some Unparsable" by simp
  show ?case
  proof (cases "sync_table force replace st tf")
    case (Inl x)
    from sync_table_raises_only_on_unparsable[OF Inl] np show ?thesis by simp
  next
    case (Inr st')
    have "\<forall>tf' \<in> set tfs. fst tf' \<noteq> ''coaches'' \<and> files (sw st') (snd tf') \<noteq> Some Unparsable"
    proof
      fix tf' assume m: "tf' \<in> set tfs"
      with Cons.prems(1,2) tf have ne: "fst tf' \<noteq> t" "snd tf' \<noteq> f" by force+
      from m Cons.prems(3) have c: "fst tf' \<noteq> ''coaches''"
        and p: "files (sw st) (snd tf') \<noteq> Some Unparsable" by auto
      from untouched_table[OF ne c, of st force replace] Inr tf
      have "files (sw st') (snd tf') = files (sw st) (snd tf')"
        by (simp add: untouched_def sync_state_of_def)
      with c p show "fst tf' \<noteq> ''coaches'' \<and> files (sw st') (snd tf') \<noteq> Some Unparsable"
        by simp
    qed
    from Cons.IH[OF _ _ this] Cons.prems(1,2) Inr show ?thesis by simp
  qed
qed

text \<open>
  A pass over local files that all parse never raises: the failures of the check, the clear,
  the upsert, the local delete and the mirror are each caught and the loop goes on.
\<close>

lemma sync_pass_returns_when_files_parse:
  assumes "\<forall>tf \<in> set tables. files w (snd tf) \<noteq> Some Unparsable"
  shows "\<not> isl (sync_local_to_supabase force replace w)"
proof (cases "configured w")
  case False
  then show ?thesis by (simp add: sync_local_to_supabase_def)
next
  case True
  let ?st0 = "\<lparr>sw = w, first_time_sync = None, total_synced = 0, total_skipped = 0,
                total_errors = 0\<rparr>"
  have d: "distinct (map fst tables)" "distinct (map snd tables)"
    "\<forall>tf \<in> set tables. fst tf \<noteq> ''coaches''"
    by (simp_all add: tables_def)
  have "\<forall>tf \<in> set tables. fst tf \<noteq> ''coaches'' \<and> files (sw ?st0) (snd tf) \<noteq> Some Unparsable"
    using d(3) assms by simp
  from sync_tables_returns[OF d(1,2) this, of force replace]
  show ?thesis using sync_pass_world[OF True, of "''x''" "''y''" force replace] by simp
qed

end
